theory Spec2Isabelle
  imports Main
begin

section \<open>Entity tree model\<close>

text \<open>
  Modelled from the spec: the classes of the entity tree, which the source
  imports from the toolkit and does not define. The attributes are the ones the
  source reads and writes.
  The migrator (\<^verbatim>\<open>migrator.py\<close>) rewrites a tree of toolkit objects:
  a Tenant owns AppProfiles, an AppProfile owns EPGs, an EPG owns Folders, and a
  Folder owns Folders, Parameters and Relations. Every object keeps an ordered
  list of children of mixed classes; \<^verbatim>\<open>get_children(cls)\<close> filters that list
  by class. Children of a class the migrator never looks at are kept as opaque
  entries so that the class filter is visible in the model.
\<close>

record parameter =
  p_name :: string
  p_key :: string
  p_value :: string
  p_deleted :: bool

record relation =
  r_name :: string
  r_key :: string
  r_targetName :: string
  r_deleted :: bool

datatype folder =
  Folder (f_name: string) (f_key: string)
         (ctrctNameOrLbl: string) (devCtxLbl: string) (graphNameOrLbl: string)
         (nodeNameOrLbl: string) (scopedBy: string)
         (f_deleted: bool) (f_children: "folder_child list")
and folder_child =
  ChildFolder folder | ChildParameter parameter | ChildRelation relation

datatype epg_child = EpgFolder folder | EpgOther string

record epg =
  epg_name :: string
  epg_children :: "epg_child list"

datatype app_child = AppEPG epg | AppOther string

record app_profile =
  ap_name :: string
  ap_children :: "app_child list"

datatype tenant_child = TenantApp app_profile | TenantOther string

record tenant =
  tn_name :: string
  tn_children :: "tenant_child list"

subsection \<open>Attribute assignment on a Folder\<close>

definition set_name :: "folder \<Rightarrow> string \<Rightarrow> folder" where
  "set_name f v = (case f of Folder n k c d g nn s del ch \<Rightarrow> Folder v k c d g nn s del ch)"

definition set_key :: "folder \<Rightarrow> string \<Rightarrow> folder" where
  "set_key f v = (case f of Folder n k c d g nn s del ch \<Rightarrow> Folder n v c d g nn s del ch)"

definition set_ctrctNameOrLbl :: "folder \<Rightarrow> string \<Rightarrow> folder" where
  "set_ctrctNameOrLbl f v =
     (case f of Folder n k c d g nn s del ch \<Rightarrow> Folder n k v d g nn s del ch)"

definition set_devCtxLbl :: "folder \<Rightarrow> string \<Rightarrow> folder" where
  "set_devCtxLbl f v =
     (case f of Folder n k c d g nn s del ch \<Rightarrow> Folder n k c v g nn s del ch)"

definition set_graphNameOrLbl :: "folder \<Rightarrow> string \<Rightarrow> folder" where
  "set_graphNameOrLbl f v =
     (case f of Folder n k c d g nn s del ch \<Rightarrow> Folder n k c d v nn s del ch)"

definition set_nodeNameOrLbl :: "folder \<Rightarrow> string \<Rightarrow> folder" where
  "set_nodeNameOrLbl f v =
     (case f of Folder n k c d g nn s del ch \<Rightarrow> Folder n k c d g v s del ch)"

definition set_scopedBy :: "folder \<Rightarrow> string \<Rightarrow> folder" where
  "set_scopedBy f v =
     (case f of Folder n k c d g nn s del ch \<Rightarrow> Folder n k c d g nn v del ch)"

definition set_children :: "folder \<Rightarrow> folder_child list \<Rightarrow> folder" where
  "set_children f v =
     (case f of Folder n k c d g nn s del ch \<Rightarrow> Folder n k c d g nn s del v)"

subsection \<open>Toolkit operations\<close>

text \<open>
  The toolkit classes (\<^verbatim>\<open>aci.Tenant\<close>, \<^verbatim>\<open>aci.AppProfile\<close>, \<^verbatim>\<open>aci.EPG\<close>,
  \<^verbatim>\<open>aci.Folder\<close>, \<^verbatim>\<open>aci.Parameter\<close>, \<^verbatim>\<open>aci.Relation\<close>) and their
  methods are imported by \<^verbatim>\<open>migrator.py\<close> and are not part of its source.
  The types above and the operations below follow the contract that the spec
  gives for them (sections 3 and 4.1): an ownership tree, child lookup by type
  and name among the direct children, child insertion, deep copy, and
  soft-delete marking that flags a node without unlinking it. In this model a
  deep copy is the same value, and an object mutated in place is the same
  position of its parent's child list holding the new value.
\<close>

text \<open>
  Modelled from the spec: \<^verbatim>\<open>mark_as_deleted\<close> on a Folder, which is not in the
  source. It sets the soft-delete flag and leaves the node in the tree.
\<close>

definition folder_mark_as_deleted :: "folder \<Rightarrow> folder" where
  "folder_mark_as_deleted f =
     (case f of Folder n k c d g nn s del ch \<Rightarrow> Folder n k c d g nn s True ch)"

text \<open>
  Modelled from the spec: \<^verbatim>\<open>mark_as_deleted\<close> on a Parameter, which is not in
  the source.
\<close>

definition param_mark_as_deleted :: "parameter \<Rightarrow> parameter" where
  "param_mark_as_deleted p = p\<lparr>p_deleted := True\<rparr>"

text \<open>
  Modelled from the spec: the constructor \<^verbatim>\<open>aci.Folder(name, parent)\<close>, which
  is not in the source. The new Folder has the given name, is live and has no
  children; the attributes that the source assigns afterwards start empty. The
  insertion into the parent is written where the source calls the constructor:
  the new object is appended to the parent's children.
\<close>

definition aci_Folder :: "string \<Rightarrow> folder" where
  "aci_Folder n = Folder n [] [] [] [] [] [] False []"

text \<open>
  Modelled from the spec: the constructor \<^verbatim>\<open>aci.Parameter(name, parent)\<close>,
  which is not in the source.
\<close>

definition aci_Parameter :: "string \<Rightarrow> parameter" where
  "aci_Parameter n = \<lparr>p_name = n, p_key = [], p_value = [], p_deleted = False\<rparr>"

text \<open>
  Modelled from the spec: the constructor \<^verbatim>\<open>aci.Relation(name, parent)\<close>,
  which is not in the source.
\<close>

definition aci_Relation :: "string \<Rightarrow> relation" where
  "aci_Relation n = \<lparr>r_name = n, r_key = [], r_targetName = [], r_deleted = False\<rparr>"

text \<open>
  Modelled from the spec: child insertion (\<^verbatim>\<open>add_child\<close>, and the insertion
  that a constructor with a parent performs), which is not in the source. The
  child goes to the end of the ordered child list.
\<close>

definition add_child :: "folder \<Rightarrow> folder_child \<Rightarrow> folder" where
  "add_child f c = set_children f (f_children f @ [c])"

text \<open>
  Modelled from the spec: \<^verbatim>\<open>tenant.get_child(aci.AppProfile, name)\<close>, which is
  not in the source: the first direct child of that class with that name, None
  when there is none.
\<close>

fun get_child :: "tenant_child list \<Rightarrow> string \<Rightarrow> app_profile option" where
  "get_child [] n = None"
| "get_child (TenantApp a # cs) n = (if ap_name a = n then Some a else get_child cs n)"
| "get_child (TenantOther x # cs) n = get_child cs n"

text \<open>
  The AppProfile that \<open>get_child\<close> returned is mutated in place by the passes;
  \<open>put_child\<close> stores the mutated value at the position \<open>get_child\<close> found.
\<close>

fun put_child :: "tenant_child list \<Rightarrow> string \<Rightarrow> app_profile \<Rightarrow> tenant_child list" where
  "put_child [] n a' = []"
| "put_child (TenantApp a # cs) n a' =
     (if ap_name a = n then TenantApp a' # cs else TenantApp a # put_child cs n a')"
| "put_child (TenantOther x # cs) n a' = TenantOther x # put_child cs n a'"

subsection \<open>Python string operations\<close>

definition endswith :: "string \<Rightarrow> string \<Rightarrow> bool" where
  "endswith s suf = (length suf \<le> length s \<and> drop (length s - length suf) s = suf)"

definition lower_char :: "char \<Rightarrow> char" where
  "lower_char c =
     (let n = (of_char c :: nat) in if 65 \<le> n \<and> n \<le> 90 then char_of (n + 32) else c)"

definition lower :: "string \<Rightarrow> string" where
  "lower s = map lower_char s"

section \<open>The shared frame of the six tree passes\<close>

text \<open>
  Every tree pass of \<^verbatim>\<open>migrator.py\<close> starts the same way: look the AppProfile
  up by name, print an error and return False when it is absent, otherwise loop
  over the EPG children of the AppProfile, mutating each EPG in place and setting
  \<^verbatim>\<open>changes_made\<close> whenever the body hits. \<open>for_epgs\<close> is that loop for a body
  given as a function from an EPG to the mutated EPG and its hit flag;
  \<open>tree_pass\<close> is the frame around it.
\<close>

fun for_epgs :: "(epg \<Rightarrow> epg \<times> bool) \<Rightarrow> app_child list \<Rightarrow> app_child list \<times> bool" where
  "for_epgs body [] = ([], False)"
| "for_epgs body (AppEPG e # cs) =
     (case body e of (e', c1) \<Rightarrow>
        (case for_epgs body cs of (cs', c2) \<Rightarrow> (AppEPG e' # cs', c1 \<or> c2)))"
| "for_epgs body (AppOther x # cs) =
     (case for_epgs body cs of (cs', c2) \<Rightarrow> (AppOther x # cs', c2))"

definition tree_pass :: "(epg \<Rightarrow> epg \<times> bool) \<Rightarrow> tenant \<Rightarrow> string \<Rightarrow> tenant \<times> bool" where
  "tree_pass body tenant app_name =
     (case get_child (tn_children tenant) app_name of
        None \<Rightarrow> (tenant, False)
      | Some app \<Rightarrow>
          (case for_epgs body (ap_children app) of (cs', changes_made) \<Rightarrow>
             (tenant\<lparr>tn_children :=
                 put_child (tn_children tenant) app_name (app\<lparr>ap_children := cs'\<rparr>)\<rparr>,
              changes_made)))"

section \<open>Forward pass 1: interface folder key rename\<close>

definition premigration :: string where
  "premigration = ''_premigration''"

definition needs_key_migration :: "folder \<Rightarrow> bool" where
  "needs_key_migration folder =
     (f_key folder = ''InterfaceConfig'' \<and> \<not> endswith (f_name folder) premigration)"

definition make_backup :: "folder \<Rightarrow> folder" where
  "make_backup folder =
     (let backup = folder;
          backup = set_name backup (f_name backup @ premigration);
          backup = set_ctrctNameOrLbl backup (ctrctNameOrLbl backup @ premigration)
      in backup)"

definition migrate_subfolder :: "folder_child \<Rightarrow> folder_child" where
  "migrate_subfolder c =
     (case c of
        ChildFolder subfolder \<Rightarrow>
          (if f_key subfolder \<noteq> ''Layer3InterfaceConfig''
              \<and> f_key subfolder \<noteq> ''Layer2InterfaceConfig''
           then c
           else ChildFolder (set_key subfolder (take 15 (f_key subfolder))))
      | _ \<Rightarrow> c)"

definition migrate_folder :: "folder \<Rightarrow> folder" where
  "migrate_folder folder =
     (let folder = set_key folder ''Interface'';
          folder = set_name folder (f_name folder)
      in set_children folder (map migrate_subfolder (f_children folder)))"

text \<open>
  The loop over \<^verbatim>\<open>epg.get_children(aci.Folder)\<close>, a snapshot of the EPG's Folder
  children: each hit is mutated where it stands and its backup is appended to the
  EPG. The result is the children with the hits rewritten, the backups in the
  order they were appended, and the change flag.
\<close>

fun mifk_folders :: "epg_child list \<Rightarrow> epg_child list \<times> epg_child list \<times> bool" where
  "mifk_folders [] = ([], [], False)"
| "mifk_folders (EpgFolder folder # cs) =
     (case mifk_folders cs of (cs', backups, changes_made) \<Rightarrow>
        (if needs_key_migration folder
         then (EpgFolder (migrate_folder folder) # cs',
               EpgFolder (make_backup folder) # backups, True)
         else (EpgFolder folder # cs', backups, changes_made)))"
| "mifk_folders (EpgOther x # cs) =
     (case mifk_folders cs of (cs', backups, changes_made) \<Rightarrow>
        (EpgOther x # cs', backups, changes_made))"

definition mifk_epg :: "epg \<Rightarrow> epg \<times> bool" where
  "mifk_epg e =
     (case mifk_folders (epg_children e) of (cs', backups, changes_made) \<Rightarrow>
        (e\<lparr>epg_children := cs' @ backups\<rparr>, changes_made))"

definition migrate_interface_folder_keys :: "tenant \<Rightarrow> string \<Rightarrow> tenant \<times> bool" where
  "migrate_interface_folder_keys tenant app_name = tree_pass mifk_epg tenant app_name"

section \<open>Forward pass 2: zone and VLAN extraction\<close>

text \<open>
  The body run for one hit of the innermost loop: \<open>folder\<close> is the Interface
  folder, \<open>layerfolder\<close> its layer sub-folder and \<open>param\<close> the Parameter whose
  key is \<^verbatim>\<open>security_zone\<close> or \<^verbatim>\<open>bridge_domain\<close>. It builds the Folder that
  the source attaches to the EPG and the Relation it attaches to the layer
  folder.
\<close>

definition zone_vlan_folder :: "folder \<Rightarrow> folder \<Rightarrow> parameter \<Rightarrow> folder" where
  "zone_vlan_folder folder layerfolder param =
     (let new_folder = aci_Folder (p_value param);
          new_folder = set_ctrctNameOrLbl new_folder (ctrctNameOrLbl folder);
          new_folder = set_devCtxLbl new_folder (devCtxLbl folder);
          new_folder = set_graphNameOrLbl new_folder (graphNameOrLbl folder);
          new_folder = set_nodeNameOrLbl new_folder (nodeNameOrLbl folder);
          new_folder = set_scopedBy new_folder (scopedBy folder)
      in if p_key param = ''bridge_domain'' then set_key new_folder ''Vlan''
         else if p_key param = ''security_zone'' then
           (let new_folder = set_key new_folder ''Zone'';
                layer = aci_Parameter ''mode'';
                layer = layer\<lparr>p_key := ''mode''\<rparr>;
                layer = layer\<lparr>p_value := lower (take 6 (f_key layerfolder))\<rparr>
            in add_child new_folder (ChildParameter layer))
         else new_folder)"

definition zone_vlan_relation :: "folder \<Rightarrow> parameter \<Rightarrow> relation" where
  "zone_vlan_relation new_folder param =
     (let new_ref_key = (if p_key param = ''bridge_domain'' then ''vlan''
                         else if p_key param = ''security_zone'' then ''zone'' else []);
          relation = aci_Relation (p_key param @ ''_rel'');
          relation = relation\<lparr>r_key := new_ref_key\<rparr>
      in relation\<lparr>r_targetName := f_name new_folder\<rparr>)"

text \<open>
  The loop over \<^verbatim>\<open>layerfolder.get_children(aci.Parameter)\<close>: the result is the
  layer folder's children with the hits marked deleted, the Relations appended to
  the layer folder, the Folders appended to the EPG, and the change flag.
\<close>

fun mzv_params :: "folder \<Rightarrow> folder \<Rightarrow> folder_child list
    \<Rightarrow> folder_child list \<times> folder_child list \<times> epg_child list \<times> bool" where
  "mzv_params folder layerfolder [] = ([], [], [], False)"
| "mzv_params folder layerfolder (ChildParameter param # cs) =
     (case mzv_params folder layerfolder cs of (cs', rels, news, changes_made) \<Rightarrow>
        (if p_key param \<noteq> ''security_zone'' \<and> p_key param \<noteq> ''bridge_domain''
         then (ChildParameter param # cs', rels, news, changes_made)
         else (let new_folder = zone_vlan_folder folder layerfolder param
               in (ChildParameter (param_mark_as_deleted param) # cs',
                   ChildRelation (zone_vlan_relation new_folder param) # rels,
                   EpgFolder new_folder # news, True))))"
| "mzv_params folder layerfolder (c # cs) =
     (case mzv_params folder layerfolder cs of (cs', rels, news, changes_made) \<Rightarrow>
        (c # cs', rels, news, changes_made))"

definition is_layer_key :: "string \<Rightarrow> bool" where
  "is_layer_key k = (k = ''Layer3Interface'' \<or> k = ''Layer2Interface'')"

fun mzv_layerfolders :: "folder \<Rightarrow> folder_child list
    \<Rightarrow> folder_child list \<times> epg_child list \<times> bool" where
  "mzv_layerfolders folder [] = ([], [], False)"
| "mzv_layerfolders folder (ChildFolder layerfolder # cs) =
     (case mzv_layerfolders folder cs of (cs', news', changes_made') \<Rightarrow>
        (if \<not> is_layer_key (f_key layerfolder)
         then (ChildFolder layerfolder # cs', news', changes_made')
         else (case mzv_params folder layerfolder (f_children layerfolder) of
                 (ps, rels, news, changes_made) \<Rightarrow>
                   (ChildFolder (set_children layerfolder (ps @ rels)) # cs',
                    news @ news', changes_made \<or> changes_made'))))"
| "mzv_layerfolders folder (c # cs) =
     (case mzv_layerfolders folder cs of (cs', news', changes_made') \<Rightarrow>
        (c # cs', news', changes_made'))"

fun mzv_folders :: "epg_child list \<Rightarrow> epg_child list \<times> epg_child list \<times> bool" where
  "mzv_folders [] = ([], [], False)"
| "mzv_folders (EpgFolder folder # cs) =
     (case mzv_folders cs of (cs', news', changes_made') \<Rightarrow>
        (if f_key folder \<noteq> ''Interface''
         then (EpgFolder folder # cs', news', changes_made')
         else (case mzv_layerfolders folder (f_children folder) of
                 (ls, news, changes_made) \<Rightarrow>
                   (EpgFolder (set_children folder ls) # cs',
                    news @ news', changes_made \<or> changes_made'))))"
| "mzv_folders (EpgOther x # cs) =
     (case mzv_folders cs of (cs', news', changes_made') \<Rightarrow>
        (EpgOther x # cs', news', changes_made'))"

definition mzv_epg :: "epg \<Rightarrow> epg \<times> bool" where
  "mzv_epg e =
     (case mzv_folders (epg_children e) of (cs', news, changes_made) \<Rightarrow>
        (e\<lparr>epg_children := cs' @ news\<rparr>, changes_made))"

definition migrate_zones_and_vlans :: "tenant \<Rightarrow> string \<Rightarrow> tenant \<times> bool" where
  "migrate_zones_and_vlans tenant app_name = tree_pass mzv_epg tenant app_name"

section \<open>Forward pass 3: default gateway extraction\<close>

definition static_route_folder :: "folder \<Rightarrow> parameter \<Rightarrow> folder" where
  "static_route_folder folder param =
     (let new_folder = aci_Folder ''default_gateway'';
          new_folder = set_ctrctNameOrLbl new_folder (ctrctNameOrLbl folder);
          new_folder = set_devCtxLbl new_folder (devCtxLbl folder);
          new_folder = set_graphNameOrLbl new_folder (graphNameOrLbl folder);
          new_folder = set_nodeNameOrLbl new_folder (nodeNameOrLbl folder);
          new_folder = set_scopedBy new_folder (scopedBy folder);
          new_folder = set_key new_folder ''StaticRoute'';
          nexthop = aci_Parameter ''nexthop'';
          new_folder = add_child new_folder
            (ChildParameter (nexthop\<lparr>p_key := ''nexthop'', p_value := p_value param\<rparr>));
          destination = aci_Parameter ''destination''
      in add_child new_folder
           (ChildParameter (destination\<lparr>p_key := ''destination'', p_value := ''0.0.0.0/0''\<rparr>)))"

fun mdg_params :: "folder \<Rightarrow> folder_child list
    \<Rightarrow> folder_child list \<times> epg_child list \<times> bool" where
  "mdg_params folder [] = ([], [], False)"
| "mdg_params folder (ChildParameter param # cs) =
     (case mdg_params folder cs of (cs', news, changes_made) \<Rightarrow>
        (if p_key param \<noteq> ''default_gateway''
         then (ChildParameter param # cs', news, changes_made)
         else (ChildParameter (param_mark_as_deleted param) # cs',
               EpgFolder (static_route_folder folder param) # news, True)))"
| "mdg_params folder (c # cs) =
     (case mdg_params folder cs of (cs', news, changes_made) \<Rightarrow>
        (c # cs', news, changes_made))"

fun mdg_layerfolders :: "folder \<Rightarrow> folder_child list
    \<Rightarrow> folder_child list \<times> epg_child list \<times> bool" where
  "mdg_layerfolders folder [] = ([], [], False)"
| "mdg_layerfolders folder (ChildFolder layerfolder # cs) =
     (case mdg_layerfolders folder cs of (cs', news', changes_made') \<Rightarrow>
        (if \<not> is_layer_key (f_key layerfolder)
         then (ChildFolder layerfolder # cs', news', changes_made')
         else (case mdg_params folder (f_children layerfolder) of
                 (ps, news, changes_made) \<Rightarrow>
                   (ChildFolder (set_children layerfolder ps) # cs',
                    news @ news', changes_made \<or> changes_made'))))"
| "mdg_layerfolders folder (c # cs) =
     (case mdg_layerfolders folder cs of (cs', news', changes_made') \<Rightarrow>
        (c # cs', news', changes_made'))"

fun mdg_folders :: "epg_child list \<Rightarrow> epg_child list \<times> epg_child list \<times> bool" where
  "mdg_folders [] = ([], [], False)"
| "mdg_folders (EpgFolder folder # cs) =
     (case mdg_folders cs of (cs', news', changes_made') \<Rightarrow>
        (if f_key folder \<noteq> ''Interface''
         then (EpgFolder folder # cs', news', changes_made')
         else (case mdg_layerfolders folder (f_children folder) of
                 (ls, news, changes_made) \<Rightarrow>
                   (EpgFolder (set_children folder ls) # cs',
                    news @ news', changes_made \<or> changes_made'))))"
| "mdg_folders (EpgOther x # cs) =
     (case mdg_folders cs of (cs', news', changes_made') \<Rightarrow>
        (EpgOther x # cs', news', changes_made'))"

definition mdg_epg :: "epg \<Rightarrow> epg \<times> bool" where
  "mdg_epg e =
     (case mdg_folders (epg_children e) of (cs', news, changes_made) \<Rightarrow>
        (e\<lparr>epg_children := cs' @ news\<rparr>, changes_made))"

definition migrate_default_gateway :: "tenant \<Rightarrow> string \<Rightarrow> tenant \<times> bool" where
  "migrate_default_gateway tenant app_name = tree_pass mdg_epg tenant app_name"

section \<open>Cleanup pass\<close>

definition is_backup :: "folder \<Rightarrow> bool" where
  "is_backup folder =
     (f_key folder = ''InterfaceConfig'' \<and> endswith (f_name folder) premigration)"

fun cleanup_folders :: "epg_child list \<Rightarrow> epg_child list \<times> bool" where
  "cleanup_folders [] = ([], False)"
| "cleanup_folders (EpgFolder folder # cs) =
     (case cleanup_folders cs of (cs', changes_made) \<Rightarrow>
        (if is_backup folder
         then (EpgFolder (folder_mark_as_deleted folder) # cs', True)
         else (EpgFolder folder # cs', changes_made)))"
| "cleanup_folders (EpgOther x # cs) =
     (case cleanup_folders cs of (cs', changes_made) \<Rightarrow> (EpgOther x # cs', changes_made))"

definition cleanup_epg :: "epg \<Rightarrow> epg \<times> bool" where
  "cleanup_epg e =
     (case cleanup_folders (epg_children e) of (cs', changes_made) \<Rightarrow>
        (e\<lparr>epg_children := cs'\<rparr>, changes_made))"

definition cleanup_interface_folders :: "tenant \<Rightarrow> string \<Rightarrow> tenant \<times> bool" where
  "cleanup_interface_folders tenant app_name = tree_pass cleanup_epg tenant app_name"

section \<open>Revert pass\<close>

definition is_migrated_key :: "string \<Rightarrow> bool" where
  "is_migrated_key k =
     (k = ''Interface'' \<or> k = ''Zone'' \<or> k = ''Vlan'' \<or> k = ''StaticRoute'')"

fun delete_folders :: "epg_child list \<Rightarrow> epg_child list \<times> bool" where
  "delete_folders [] = ([], False)"
| "delete_folders (EpgFolder folder # cs) =
     (case delete_folders cs of (cs', changes_made) \<Rightarrow>
        (if is_migrated_key (f_key folder)
         then (EpgFolder (folder_mark_as_deleted folder) # cs', True)
         else (EpgFolder folder # cs', changes_made)))"
| "delete_folders (EpgOther x # cs) =
     (case delete_folders cs of (cs', changes_made) \<Rightarrow> (EpgOther x # cs', changes_made))"

definition delete_epg :: "epg \<Rightarrow> epg \<times> bool" where
  "delete_epg e =
     (case delete_folders (epg_children e) of (cs', changes_made) \<Rightarrow>
        (e\<lparr>epg_children := cs'\<rparr>, changes_made))"

definition delete_migrated_folders :: "tenant \<Rightarrow> string \<Rightarrow> tenant \<times> bool" where
  "delete_migrated_folders tenant app_name = tree_pass delete_epg tenant app_name"

text \<open>
  \<^verbatim>\<open>revert_interface_folders\<close> runs two loops per EPG. The first unlinks
  (\<^verbatim>\<open>epg.remove_child\<close>) every Folder child whose key is one of the four
  migrated keys. The second, over a fresh snapshot, restores every Folder whose
  name ends in the suffix: a copy is appended to the EPG and marked deleted, and
  the Folder itself loses its last 13 characters of \<^verbatim>\<open>name\<close> and
  \<^verbatim>\<open>ctrctNameOrLbl\<close>.
\<close>

fun remove_migrated :: "epg_child list \<Rightarrow> epg_child list" where
  "remove_migrated [] = []"
| "remove_migrated (EpgFolder folder # cs) =
     (if is_migrated_key (f_key folder) then remove_migrated cs
      else EpgFolder folder # remove_migrated cs)"
| "remove_migrated (EpgOther x # cs) = EpgOther x # remove_migrated cs"

definition restore_folder :: "folder \<Rightarrow> folder" where
  "restore_folder folder =
     (let folder = set_name folder (take (length (f_name folder) - 13) (f_name folder))
      in set_ctrctNameOrLbl folder
           (take (length (ctrctNameOrLbl folder) - 13) (ctrctNameOrLbl folder)))"

fun restore_folders :: "epg_child list \<Rightarrow> epg_child list \<times> epg_child list \<times> bool" where
  "restore_folders [] = ([], [], False)"
| "restore_folders (EpgFolder folder # cs) =
     (case restore_folders cs of (cs', backups, changes_made) \<Rightarrow>
        (if endswith (f_name folder) premigration
         then (EpgFolder (restore_folder folder) # cs',
               EpgFolder (folder_mark_as_deleted folder) # backups, True)
         else (EpgFolder folder # cs', backups, changes_made)))"
| "restore_folders (EpgOther x # cs) =
     (case restore_folders cs of (cs', backups, changes_made) \<Rightarrow>
        (EpgOther x # cs', backups, changes_made))"

definition revert_epg :: "epg \<Rightarrow> epg \<times> bool" where
  "revert_epg e =
     (case restore_folders (remove_migrated (epg_children e)) of
        (cs', backups, changes_made) \<Rightarrow>
          (e\<lparr>epg_children := cs' @ backups\<rparr>, changes_made))"

definition revert_interface_folders :: "tenant \<Rightarrow> string \<Rightarrow> tenant \<times> bool" where
  "revert_interface_folders tenant app_name = tree_pass revert_epg tenant app_name"

section \<open>Cluster association migration\<close>

text \<open>
  \<^verbatim>\<open>get_clusters\<close> returns the \<^verbatim>\<open>imdata\<close> list of the controller's JSON
  answer: a list of dicts. A dict is an association list from keys to JSON
  values; every subscript of the source that can raise is a branch that returns
  the error.
\<close>

datatype json = JStr string | JObj "(string \<times> json) list" | JArr "json list"

type_synonym dict = "(string \<times> json) list"

datatype py_error = KeyError | TypeError | IndexError | AttributeError

definition has_key :: "dict \<Rightarrow> string \<Rightarrow> bool" where
  "has_key d k = (map_of d k \<noteq> None)"

definition subscript :: "json \<Rightarrow> string \<Rightarrow> py_error + json" where
  "subscript j k =
     (case j of
        JObj d \<Rightarrow> (case map_of d k of None \<Rightarrow> Inl KeyError | Some v \<Rightarrow> Inr v)
      | _ \<Rightarrow> Inl TypeError)"

fun split_on :: "char \<Rightarrow> string \<Rightarrow> string list" where
  "split_on sep [] = [[]]"
| "split_on sep (c # cs) =
     (if c = sep then [] # split_on sep cs
      else (case split_on sep cs of [] \<Rightarrow> [[c]] | p # ps \<Rightarrow> (c # p) # ps))"

definition attribute :: "dict \<Rightarrow> string \<Rightarrow> string \<Rightarrow> py_error + json" where
  \<comment> \<open>\<^verbatim>\<open>cluster[cls]['attributes'][attr]\<close>\<close>
  "attribute cluster cls attr =
     (case subscript (JObj cluster) cls of
        Inl e \<Rightarrow> Inl e
      | Inr v \<Rightarrow> (case subscript v ''attributes'' of
                   Inl e \<Rightarrow> Inl e
                 | Inr a \<Rightarrow> subscript a attr))"

definition cluster_name_of :: "dict \<Rightarrow> py_error + string" where
  \<comment> \<open>\<^verbatim>\<open>cluster['vnsRsMDevAtt']['attributes']['dn'].split('/')[2][8:]\<close>\<close>
  "cluster_name_of cluster =
     (case attribute cluster ''vnsRsMDevAtt'' ''dn'' of
        Inl e \<Rightarrow> Inl e
      | Inr (JStr dn) \<Rightarrow>
          (let parts = split_on CHR ''/'' dn
           in if length parts \<le> 2 then Inl IndexError else Inr (drop 8 (parts ! 2)))
      | Inr _ \<Rightarrow> Inl AttributeError)"

definition ldevvip :: "string \<Rightarrow> string \<Rightarrow> json" where
  "ldevvip cluster_name tDn =
     (let rsmdevatt = JObj [(''attributes'', JObj [(''tDn'', JStr tDn)])]
      in JObj [(''vnsLDevVip'',
                JObj [(''attributes'', JObj [(''name'', JStr cluster_name)]),
                      (''children'', JArr [JObj [(''vnsRsMDevAtt'', rsmdevatt)]])])])"

definition guarded_target_is :: "dict \<Rightarrow> string \<Rightarrow> string \<Rightarrow> py_error + bool" where
  \<comment> \<open>\<^verbatim>\<open>cls in cluster and cluster[cls]['attributes']['tDn'] == lit\<close>\<close>
  "guarded_target_is cluster cls lit =
     (if has_key cluster cls
      then (case attribute cluster cls ''tDn'' of
              Inl e \<Rightarrow> Inl e | Inr t \<Rightarrow> Inr (t = JStr lit))
      else Inr False)"

definition target_is :: "dict \<Rightarrow> string \<Rightarrow> string \<Rightarrow> py_error + bool" where
  \<comment> \<open>\<^verbatim>\<open>cluster[cls]['attributes']['tDn'] == lit\<close>, with no membership test\<close>
  "target_is cluster cls lit =
     (case attribute cluster cls ''tDn'' of
        Inl e \<Rightarrow> Inl e | Inr t \<Rightarrow> Inr (t = JStr lit))"

text \<open>
  One iteration of the loop of \<^verbatim>\<open>migrate_clusters\<close>: the error raised, or the
  record appended to \<^verbatim>\<open>result\<close> (None when the record is ignored). In the
  device-manager and chassis branches the source reads \<^verbatim>\<open>cluster.name\<close>, an
  attribute that a dict does not have, before it does anything else.
\<close>

definition migrate_cluster :: "dict \<Rightarrow> py_error + json option" where
  "migrate_cluster cluster =
     (case guarded_target_is cluster ''vnsRsMDevAtt''
             ''uni/infra/mDev-PaloAltoNetworks-PANOS-1.2'' of
        Inl e \<Rightarrow> Inl e
      | Inr True \<Rightarrow>
          (case cluster_name_of cluster of
             Inl e \<Rightarrow> Inl e
           | Inr cluster_name \<Rightarrow>
               Inr (Some (ldevvip cluster_name ''uni/infra/mDev-PaloAltoNetworks-PANOS-1.3'')))
      | Inr False \<Rightarrow>
          (case guarded_target_is cluster ''vnsRsDevMgrToMDevMgr''
                  ''uni/infra/mDevMgr-PaloAltoNetworks-Panorama-1.2'' of
             Inl e \<Rightarrow> Inl e
           | Inr True \<Rightarrow> Inl AttributeError
           | Inr False \<Rightarrow>
               (case guarded_target_is cluster ''vnsRsChassisToMChassis''
                       ''uni/infra/mChassis-PaloAltoNetworks-Chassis-1.2'' of
                  Inl e \<Rightarrow> Inl e
                | Inr True \<Rightarrow> Inl AttributeError
                | Inr False \<Rightarrow> Inr None)))"

definition revert_cluster :: "dict \<Rightarrow> py_error + json option" where
  "revert_cluster cluster =
     (case target_is cluster ''vnsRsMDevAtt''
             ''uni/infra/mDev-PaloAltoNetworks-PANOS-1.3'' of
        Inl e \<Rightarrow> Inl e
      | Inr True \<Rightarrow>
          (case cluster_name_of cluster of
             Inl e \<Rightarrow> Inl e
           | Inr cluster_name \<Rightarrow>
               Inr (Some (ldevvip cluster_name ''uni/infra/mDev-PaloAltoNetworks-PANOS-1.2'')))
      | Inr False \<Rightarrow>
          (case guarded_target_is cluster ''vnsRsDevMgrToMDevMgr''
                  ''uni/infra/mDevMgr-PaloAltoNetworks-Panorama-1.3'' of
             Inl e \<Rightarrow> Inl e
           | Inr True \<Rightarrow> Inl AttributeError
           | Inr False \<Rightarrow>
               (case guarded_target_is cluster ''vnsRsChassisToMChassis''
                       ''uni/infra/mChassis-PaloAltoNetworks-Chassis-1.3'' of
                  Inl e \<Rightarrow> Inl e
                | Inr True \<Rightarrow> Inl AttributeError
                | Inr False \<Rightarrow> Inr None)))"

fun clusters_loop :: "(dict \<Rightarrow> py_error + json option) \<Rightarrow> dict list \<Rightarrow> json list
    \<Rightarrow> py_error + json list" where
  "clusters_loop step [] result = Inr result"
| "clusters_loop step (cluster # cluster_rels) result =
     (case step cluster of
        Inl e \<Rightarrow> Inl e
      | Inr None \<Rightarrow> clusters_loop step cluster_rels result
      | Inr (Some r) \<Rightarrow> clusters_loop step cluster_rels (result @ [r]))"

definition migrate_clusters :: "dict list \<Rightarrow> py_error + json list" where
  "migrate_clusters cluster_rels = clusters_loop migrate_cluster cluster_rels []"

definition revert_clusters :: "dict list \<Rightarrow> py_error + json list" where
  "revert_clusters cluster_rels = clusters_loop revert_cluster cluster_rels []"

section \<open>Invocation\<close>

record args =
  a_parameters :: bool
  a_clusters :: bool
  a_revert :: bool
  a_cleanup :: bool
  a_tenant :: "string option"
  a_app :: "string option"
  a_dry_run :: bool
  a_debug :: bool

datatype 'a outcome = Exit nat | Return 'a

definition falsy :: "string option \<Rightarrow> bool" where
  \<comment> \<open>Python's \<^verbatim>\<open>not s\<close> for an optional string: None or the empty string\<close>
  "falsy s = (case s of None \<Rightarrow> True | Some v \<Rightarrow> v = [])"

definition parse_args :: "args \<Rightarrow> args outcome" where
  "parse_args args =
     (if falsy (a_tenant args) \<or> falsy (a_app args) then Return args
      else if \<not> a_parameters args \<and> \<not> a_clusters args \<and> \<not> a_cleanup args \<and> \<not> a_revert args
        then Exit 1
      else if a_revert args \<and> (\<not> a_parameters args \<and> \<not> a_clusters args) then Exit 1
      else if a_revert args \<and> a_cleanup args then Exit 1
      else if a_cleanup args \<and> (a_parameters args \<or> a_clusters args) then Exit 1
      else Return args)"

text \<open>
  \<^verbatim>\<open>main\<close> talks to the controller through the session. The answers of the
  controller are the environment; what \<^verbatim>\<open>main\<close> asks of it is recorded as a
  list of events, in order. The payload of a push is the tenant tree (the source
  serialises it with \<^verbatim>\<open>get_json\<close>) and the cluster records merged into it.
\<close>

datatype event = Login | GetTenants | GetApps | GetDeep | GetClusters
  | Push tenant "json list"

datatype status = Finished | Exited nat | Raised py_error

record env =
  login_ok :: bool
  tenant_names :: "string list"
  app_names :: "string list"
  deep :: "tenant list"
  cluster_rels :: "dict list"
  push_ok :: "tenant \<Rightarrow> json list \<Rightarrow> bool"

definition arg_str :: "string option \<Rightarrow> string" where
  "arg_str s = (case s of None \<Rightarrow> [] | Some v \<Rightarrow> v)"

text \<open>The tail of \<^verbatim>\<open>main\<close>: assemble the payload and push it.\<close>

definition final_push :: "env \<Rightarrow> args \<Rightarrow> event list \<Rightarrow> tenant \<Rightarrow> json list \<Rightarrow> bool
    \<Rightarrow> event list \<times> status" where
  "final_push env args evs tenant clusters changes_made =
     (let extra = (if a_clusters args \<and> clusters \<noteq> [] then clusters else [])
      in if \<not> a_dry_run args then
           (if changes_made then
              (if \<not> push_ok env tenant extra then (evs @ [Push tenant extra], Exited 1)
               else (evs @ [Push tenant extra], Finished))
            else (evs, Finished))
         else (evs, Finished))"

text \<open>The revert steps of \<^verbatim>\<open>main\<close>, with the first of the two pushes.\<close>

definition revert_steps :: "env \<Rightarrow> args \<Rightarrow> event list \<Rightarrow> tenant \<Rightarrow> json list \<Rightarrow> bool
    \<Rightarrow> event list \<times> status" where
  "revert_steps env args evs tenant clusters changes_made =
     (let app = arg_str (a_app args);
          (tenant, changes_made, evs, failed) =
            (if a_revert args \<and> a_parameters args then
               (case delete_migrated_folders tenant app of (t1, c1) \<Rightarrow>
                  (let changes_made = (c1 \<or> changes_made);
                       pushed = (\<not> a_dry_run args \<and> changes_made);
                       evs = (if pushed then evs @ [Push t1 []] else evs)
                   in if pushed \<and> \<not> push_ok env t1 [] then (t1, changes_made, evs, True)
                      else (case revert_interface_folders t1 app of (t2, c2) \<Rightarrow>
                              (t2, c2 \<or> changes_made, evs, False))))
             else (tenant, changes_made, evs, False))
      in if failed then (evs, Exited 1)
         else if a_revert args \<and> a_clusters args then
           (case revert_clusters (cluster_rels env) of
              Inl e \<Rightarrow> (evs @ [GetClusters], Raised e)
            | Inr clusters \<Rightarrow>
                final_push env args (evs @ [GetClusters]) tenant clusters
                  (if clusters \<noteq> [] then True else changes_made))
         else final_push env args evs tenant clusters changes_made)"

text \<open>The forward and cleanup steps of \<^verbatim>\<open>main\<close>, from the fetched tenant on.\<close>

definition run_passes :: "env \<Rightarrow> args \<Rightarrow> event list \<Rightarrow> tenant \<Rightarrow> event list \<times> status" where
  "run_passes env args evs tenant =
     (let app = arg_str (a_app args);
          changes_made = False;
          (tenant, changes_made) =
            (if a_parameters args \<and> \<not> a_revert args then
               (case migrate_interface_folder_keys tenant app of (t1, c1) \<Rightarrow>
                (case migrate_zones_and_vlans t1 app of (t2, c2) \<Rightarrow>
                 (case migrate_default_gateway t2 app of (t3, c3) \<Rightarrow>
                    (t3, c3 \<or> (c2 \<or> (c1 \<or> changes_made))))))
             else (tenant, changes_made))
      in if a_clusters args \<and> \<not> a_revert args then
           (case migrate_clusters (cluster_rels env) of
              Inl e \<Rightarrow> (evs @ [GetClusters], Raised e)
            | Inr clusters \<Rightarrow>
                (let changes_made = (if clusters \<noteq> [] then True else changes_made);
                     (tenant, changes_made) =
                       (if a_cleanup args \<and> \<not> a_revert args then
                          (case cleanup_interface_folders tenant app of (t4, c4) \<Rightarrow>
                             (t4, c4 \<or> changes_made))
                        else (tenant, changes_made))
                 in revert_steps env args (evs @ [GetClusters]) tenant clusters changes_made))
         else
           (let (tenant, changes_made) =
                  (if a_cleanup args \<and> \<not> a_revert args then
                     (case cleanup_interface_folders tenant app of (t4, c4) \<Rightarrow>
                        (t4, c4 \<or> changes_made))
                   else (tenant, changes_made))
            in revert_steps env args evs tenant [] changes_made))"

definition main :: "env \<Rightarrow> args \<Rightarrow> event list \<times> status" where
  "main env raw_args =
     (case parse_args raw_args of
        Exit n \<Rightarrow> ([], Exited n)
      | Return args \<Rightarrow>
          if \<not> login_ok env then ([Login], Exited 1)
          else if falsy (a_tenant args) then ([Login, GetTenants], Exited 0)
          else if arg_str (a_tenant args) \<notin> set (tenant_names env)
            then ([Login, GetTenants], Exited 1)
          else if (a_parameters args \<or> a_cleanup args) \<and> falsy (a_app args)
            then ([Login, GetTenants, GetApps], Exited 0)
          else if (a_parameters args \<or> a_cleanup args)
                  \<and> arg_str (a_app args) \<notin> set (app_names env)
            then ([Login, GetTenants, GetApps], Exited 1)
          else if a_parameters args \<or> a_cleanup args
                  \<or> (a_revert args \<and> a_parameters args) then
            (case deep env of
               [] \<Rightarrow> ([Login, GetTenants, GetApps, GetDeep], Raised IndexError)
             | tenant # _ \<Rightarrow>
                 run_passes env args [Login, GetTenants, GetApps, GetDeep] tenant)
          else run_passes env args [Login, GetTenants, GetApps]
                 \<lparr>tn_name = arg_str (a_tenant args), tn_children = []\<rparr>)"

section \<open>Vocabulary for the properties\<close>

text \<open>
  The children of one class, in order (\<^verbatim>\<open>get_children(cls)\<close>), and the
  rewriting of the children of one class where they stand. The passes are
  characterised with them below.
\<close>

fun epgs_of_children :: "app_child list \<Rightarrow> epg list" where
  "epgs_of_children [] = []"
| "epgs_of_children (AppEPG e # cs) = e # epgs_of_children cs"
| "epgs_of_children (AppOther x # cs) = epgs_of_children cs"

definition epgs_of :: "tenant \<Rightarrow> string \<Rightarrow> epg list" where
  "epgs_of tenant app_name =
     (case get_child (tn_children tenant) app_name of
        None \<Rightarrow> [] | Some app \<Rightarrow> epgs_of_children (ap_children app))"

definition map_epgs :: "(epg \<Rightarrow> epg) \<Rightarrow> app_child list \<Rightarrow> app_child list" where
  "map_epgs g cs = map (\<lambda>c. case c of AppEPG e \<Rightarrow> AppEPG (g e) | AppOther x \<Rightarrow> AppOther x) cs"

definition map_app_epgs :: "(epg \<Rightarrow> epg) \<Rightarrow> tenant \<Rightarrow> string \<Rightarrow> tenant" where
  "map_app_epgs g tenant app_name =
     (case get_child (tn_children tenant) app_name of
        None \<Rightarrow> tenant
      | Some app \<Rightarrow>
          tenant\<lparr>tn_children :=
            put_child (tn_children tenant) app_name
              (app\<lparr>ap_children := map_epgs g (ap_children app)\<rparr>)\<rparr>)"

fun app_profile_names :: "tenant_child list \<Rightarrow> string list" where
  "app_profile_names [] = []"
| "app_profile_names (TenantApp a # cs) = ap_name a # app_profile_names cs"
| "app_profile_names (TenantOther x # cs) = app_profile_names cs"

fun folders_of :: "epg_child list \<Rightarrow> folder list" where
  "folders_of [] = []"
| "folders_of (EpgFolder f # cs) = f # folders_of cs"
| "folders_of (EpgOther x # cs) = folders_of cs"

definition map_folders :: "(folder \<Rightarrow> folder) \<Rightarrow> epg_child list \<Rightarrow> epg_child list" where
  "map_folders g cs =
     map (\<lambda>c. case c of EpgFolder f \<Rightarrow> EpgFolder (g f) | EpgOther x \<Rightarrow> EpgOther x) cs"

fun subfolders_of :: "folder_child list \<Rightarrow> folder list" where
  "subfolders_of [] = []"
| "subfolders_of (ChildFolder f # cs) = f # subfolders_of cs"
| "subfolders_of (c # cs) = subfolders_of cs"

definition map_subfolders :: "(folder \<Rightarrow> folder) \<Rightarrow> folder_child list \<Rightarrow> folder_child list" where
  "map_subfolders g cs =
     map (\<lambda>c. case c of ChildFolder f \<Rightarrow> ChildFolder (g f) | _ \<Rightarrow> c) cs"

fun params_of :: "folder_child list \<Rightarrow> parameter list" where
  "params_of [] = []"
| "params_of (ChildParameter p # cs) = p # params_of cs"
| "params_of (c # cs) = params_of cs"

definition map_params :: "(parameter \<Rightarrow> parameter) \<Rightarrow> folder_child list \<Rightarrow> folder_child list" where
  "map_params g cs =
     map (\<lambda>c. case c of ChildParameter p \<Rightarrow> ChildParameter (g p) | _ \<Rightarrow> c) cs"

definition zv_hit :: "parameter \<Rightarrow> bool" where
  "zv_hit p = (p_key p = ''security_zone'' \<or> p_key p = ''bridge_domain'')"

definition dg_hit :: "parameter \<Rightarrow> bool" where
  "dg_hit p = (p_key p = ''default_gateway'')"

text \<open>
  What the zone/VLAN pass and the default-gateway pass do to one layer folder
  and to one Interface folder, and the Folders they add to the EPG for it, in
  closed form. The loops are proved equal to these below.
\<close>

definition mzv_layer :: "folder \<Rightarrow> folder \<Rightarrow> folder" where
  "mzv_layer folder lf =
     set_children lf
       (map_params (\<lambda>p. if zv_hit p then param_mark_as_deleted p else p) (f_children lf)
        @ map (\<lambda>p. ChildRelation (zone_vlan_relation (zone_vlan_folder folder lf p) p))
            (filter zv_hit (params_of (f_children lf))))"

definition mzv_folder :: "folder \<Rightarrow> folder" where
  "mzv_folder f =
     set_children f
       (map_subfolders (\<lambda>lf. if is_layer_key (f_key lf) then mzv_layer f lf else lf)
          (f_children f))"

definition mzv_news :: "folder \<Rightarrow> epg_child list" where
  "mzv_news f =
     concat (map (\<lambda>lf. map (\<lambda>p. EpgFolder (zone_vlan_folder f lf p))
                          (filter zv_hit (params_of (f_children lf))))
               (filter (\<lambda>lf. is_layer_key (f_key lf)) (subfolders_of (f_children f))))"

definition mdg_layer :: "folder \<Rightarrow> folder" where
  "mdg_layer lf =
     set_children lf
       (map_params (\<lambda>p. if dg_hit p then param_mark_as_deleted p else p) (f_children lf))"

definition mdg_folder :: "folder \<Rightarrow> folder" where
  "mdg_folder f =
     set_children f
       (map_subfolders (\<lambda>lf. if is_layer_key (f_key lf) then mdg_layer lf else lf)
          (f_children f))"

definition mdg_news :: "folder \<Rightarrow> epg_child list" where
  "mdg_news f =
     concat (map (\<lambda>lf. map (\<lambda>p. EpgFolder (static_route_folder f p))
                          (filter dg_hit (params_of (f_children lf))))
               (filter (\<lambda>lf. is_layer_key (f_key lf)) (subfolders_of (f_children f))))"

text \<open>
  Following the spec's words for the sub-folder key rewrite: removing a trailing
  suffix from a string (the source cuts at a fixed length instead).
\<close>

definition remove_suffix :: "string \<Rightarrow> string \<Rightarrow> string" where
  "remove_suffix s suf = (if endswith s suf then take (length s - length suf) s else s)"

text \<open>
  The combinations of action flags that the spec rules out (section 7), the
  pushes among the events of an invocation, every EPG of the tenant and every
  backup Folder under one.
\<close>

definition invalid_combination :: "args \<Rightarrow> bool" where
  "invalid_combination args =
     ((a_cleanup args \<and> (a_parameters args \<or> a_clusters args))
      \<or> (a_revert args \<and> a_cleanup args)
      \<or> (a_revert args \<and> \<not> a_parameters args \<and> \<not> a_clusters args)
      \<or> (\<not> a_parameters args \<and> \<not> a_clusters args \<and> \<not> a_cleanup args \<and> \<not> a_revert args))"

fun is_push :: "event \<Rightarrow> bool" where
  "is_push (Push t c) = True"
| "is_push _ = False"

definition pushes :: "event list \<Rightarrow> event list" where
  "pushes evs = filter is_push evs"

fun all_epgs :: "tenant_child list \<Rightarrow> epg list" where
  "all_epgs [] = []"
| "all_epgs (TenantApp a # cs) = epgs_of_children (ap_children a) @ all_epgs cs"
| "all_epgs (TenantOther x # cs) = all_epgs cs"

definition backup_folders :: "tenant \<Rightarrow> folder list" where
  "backup_folders tenant =
     filter is_backup (concat (map (\<lambda>e. folders_of (epg_children e)) (all_epgs (tn_children tenant))))"

text \<open>
  The Folder at a position of the tree (child \<open>i\<close> of the tenant, child \<open>j\<close>
  of that AppProfile, child \<open>k\<close> of that EPG); the three forward passes run in
  any order, any number of times; and a rewriting of EPGs that leaves every
  backup Folder where and as it was.
\<close>

definition folder_at :: "tenant \<Rightarrow> nat \<Rightarrow> nat \<Rightarrow> nat \<Rightarrow> folder option" where
  "folder_at tenant i j k =
     (if i < length (tn_children tenant) then
        (case tn_children tenant ! i of
           TenantApp app \<Rightarrow>
             (if j < length (ap_children app) then
                (case ap_children app ! j of
                   AppEPG e \<Rightarrow>
                     (if k < length (epg_children e) then
                        (case epg_children e ! k of
                           EpgFolder f \<Rightarrow> Some f
                         | EpgOther x \<Rightarrow> None)
                      else None)
                 | AppOther x \<Rightarrow> None)
              else None)
         | TenantOther x \<Rightarrow> None)
      else None)"

datatype forward_pass = KeyRename | ZoneVlan | DefaultGateway

fun run_forward :: "forward_pass \<Rightarrow> tenant \<Rightarrow> string \<Rightarrow> tenant" where
  "run_forward KeyRename tenant app_name = fst (migrate_interface_folder_keys tenant app_name)"
| "run_forward ZoneVlan tenant app_name = fst (migrate_zones_and_vlans tenant app_name)"
| "run_forward DefaultGateway tenant app_name = fst (migrate_default_gateway tenant app_name)"

fun run_sequence :: "forward_pass list \<Rightarrow> tenant \<Rightarrow> string \<Rightarrow> tenant" where
  "run_sequence [] tenant app_name = tenant"
| "run_sequence (p # ps) tenant app_name = run_sequence ps (run_forward p tenant app_name) app_name"

definition keeps_backups :: "(epg \<Rightarrow> epg) \<Rightarrow> bool" where
  "keeps_backups g =
     (\<forall>e k b. k < length (epg_children e) \<and> epg_children e ! k = EpgFolder b \<and> is_backup b
        \<longrightarrow> k < length (epg_children (g e)) \<and> epg_children (g e) ! k = EpgFolder b)"

text \<open>
  The three forward passes in their fixed order and the revert pass
  (delete-migrated, then restore-backups), on the tree alone. A legacy tree has,
  under the EPGs of the app profile, no Folder with one of the four migrated keys
  and no Folder whose name ends in the suffix. \<open>round_trip_children\<close> is what
  forward-then-revert leaves under an EPG of a legacy tree: the children that are
  not InterfaceConfig Folders, then the InterfaceConfig Folders, then one
  soft-deleted copy of each one's backup.
\<close>

definition forward_passes :: "tenant \<Rightarrow> string \<Rightarrow> tenant" where
  "forward_passes tenant app_name =
     fst (migrate_default_gateway
            (fst (migrate_zones_and_vlans
                    (fst (migrate_interface_folder_keys tenant app_name)) app_name)) app_name)"

definition revert_pass :: "tenant \<Rightarrow> string \<Rightarrow> tenant" where
  "revert_pass tenant app_name =
     fst (revert_interface_folders (fst (delete_migrated_folders tenant app_name)) app_name)"

definition legacy_folder :: "folder \<Rightarrow> bool" where
  "legacy_folder f = (\<not> is_migrated_key (f_key f) \<and> \<not> endswith (f_name f) premigration)"

definition legacy_tree :: "tenant \<Rightarrow> string \<Rightarrow> bool" where
  "legacy_tree tenant app_name =
     list_all (\<lambda>e. list_all legacy_folder (folders_of (epg_children e)))
       (epgs_of tenant app_name)"

definition is_interface_config :: "epg_child \<Rightarrow> bool" where
  "is_interface_config c =
     (case c of EpgFolder f \<Rightarrow> f_key f = ''InterfaceConfig'' | EpgOther x \<Rightarrow> False)"

definition backup_child :: "epg_child \<Rightarrow> epg_child" where
  "backup_child c = (case c of EpgFolder f \<Rightarrow> EpgFolder (make_backup f) | EpgOther x \<Rightarrow> c)"

definition deleted_backup :: "epg_child \<Rightarrow> epg_child" where
  "deleted_backup c =
     (case c of EpgFolder f \<Rightarrow> EpgFolder (folder_mark_as_deleted (make_backup f))
      | EpgOther x \<Rightarrow> c)"

definition round_trip_children :: "epg_child list \<Rightarrow> epg_child list" where
  "round_trip_children cs =
     filter (\<lambda>c. \<not> is_interface_config c) cs
     @ filter is_interface_config cs
     @ map deleted_backup (filter is_interface_config cs)"

definition round_trip_epg :: "epg \<Rightarrow> epg" where
  "round_trip_epg e = e\<lparr>epg_children := round_trip_children (epg_children e)\<rparr>"

definition without_deleted_folders :: "tenant \<Rightarrow> string \<Rightarrow> tenant" where
  "without_deleted_folders tenant app_name =
     map_app_epgs
       (\<lambda>e. e\<lparr>epg_children :=
                filter (\<lambda>c. case c of EpgFolder f \<Rightarrow> \<not> f_deleted f | EpgOther x \<Rightarrow> True)
                  (epg_children e)\<rparr>)
       tenant app_name"

text \<open>
  Following the words of the forward scenario: a pre-migration interface Folder
  (key \<^verbatim>\<open>InterfaceConfig\<close>, a \<^verbatim>\<open>Layer3InterfaceConfig\<close> sub-folder holding
  \<^verbatim>\<open>security_zone=zoneA\<close> and \<^verbatim>\<open>default_gateway=10.0.0.1\<close>), and what the
  children of the EPG must contain afterwards for the Folder named \<open>orig\<close>.
\<close>

fun relations_of :: "folder_child list \<Rightarrow> relation list" where
  "relations_of [] = []"
| "relations_of (ChildRelation r # cs) = r # relations_of cs"
| "relations_of (c # cs) = relations_of cs"

definition has_param :: "string \<Rightarrow> string \<Rightarrow> folder \<Rightarrow> bool" where
  "has_param k v f = list_ex (\<lambda>p. p_key p = k \<and> p_value p = v) (params_of (f_children f))"

definition premigration_shape :: "folder \<Rightarrow> bool" where
  "premigration_shape f =
     (f_key f = ''InterfaceConfig''
      \<and> list_ex (\<lambda>l. f_key l = ''Layer3InterfaceConfig''
                    \<and> has_param ''security_zone'' ''zoneA'' l
                    \<and> has_param ''default_gateway'' ''10.0.0.1'' l)
          (subfolders_of (f_children f)))"

definition migrated_shape :: "string \<Rightarrow> epg_child list \<Rightarrow> bool" where
  "migrated_shape orig cs =
     (list_ex (\<lambda>b. f_name b = orig @ premigration) (folders_of cs)
      \<and> list_ex (\<lambda>f. f_key f = ''Interface''
                    \<and> list_ex (\<lambda>l. f_key l = ''Layer3Interface''
                                  \<and> list_ex (\<lambda>r. r_key r = ''zone'' \<and> r_targetName r = ''zoneA'')
                                      (relations_of (f_children l)))
                        (subfolders_of (f_children f)))
          (folders_of cs)
      \<and> list_ex (\<lambda>z. f_key z = ''Zone'' \<and> f_name z = ''zoneA'' \<and> has_param ''mode'' ''layer3'' z)
          (folders_of cs)
      \<and> list_ex (\<lambda>s. f_key s = ''StaticRoute'' \<and> f_name s = ''default_gateway''
                    \<and> has_param ''nexthop'' ''10.0.0.1'' s
                    \<and> has_param ''destination'' ''0.0.0.0/0'' s)
          (folders_of cs))"



section \<open>Example trees\<close>

definition sample_layer :: folder where
  "sample_layer =
     Folder ''l3'' ''Layer3InterfaceConfig'' ''c1'' ''ctx'' ''g1'' ''n1'' ''tn'' False
       [ChildParameter \<lparr>p_name = ''security_zone'', p_key = ''security_zone'',
                        p_value = ''zoneA'', p_deleted = False\<rparr>,
        ChildParameter \<lparr>p_name = ''default_gateway'', p_key = ''default_gateway'',
                        p_value = ''10.0.0.1'', p_deleted = False\<rparr>]"

definition sample_folder :: folder where
  "sample_folder =
     Folder ''eth1'' ''InterfaceConfig'' ''c1'' ''ctx'' ''g1'' ''n1'' ''tn'' False
       [ChildFolder sample_layer]"

definition sample_epg :: epg where
  "sample_epg = \<lparr>epg_name = ''epg1'', epg_children = [EpgFolder sample_folder]\<rparr>"

definition sample_tenant :: tenant where
  "sample_tenant =
     \<lparr>tn_name = ''T1'',
      tn_children = [TenantApp \<lparr>ap_name = ''app1'', ap_children = [AppEPG sample_epg]\<rparr>]\<rparr>"

definition backup_only_tenant :: tenant where
  "backup_only_tenant =
     \<lparr>tn_name = ''T1'',
      tn_children =
        [TenantApp \<lparr>ap_name = ''app1'',
           ap_children = [AppEPG \<lparr>epg_name = ''epg1'',
             epg_children = [EpgFolder (make_backup sample_folder)]\<rparr>]\<rparr>]\<rparr>"

definition zone_folder :: folder where
  "zone_folder = Folder ''trust'' ''Zone'' ''c1'' ''ctx'' ''g1'' ''n1'' ''tn'' False []"

definition zone_tenant :: tenant where
  "zone_tenant =
     \<lparr>tn_name = ''T1'',
      tn_children =
        [TenantApp \<lparr>ap_name = ''app1'',
           ap_children = [AppEPG \<lparr>epg_name = ''epg1'',
             epg_children = [EpgFolder zone_folder]\<rparr>]\<rparr>]\<rparr>"

definition dns_folder :: folder where
  "dns_folder = Folder ''dns'' ''DNS'' ''c1'' ''ctx'' ''g1'' ''n1'' ''tn'' False []"

definition mixed_tenant :: tenant where
  "mixed_tenant =
     \<lparr>tn_name = ''T1'',
      tn_children =
        [TenantApp \<lparr>ap_name = ''app1'',
           ap_children = [AppEPG \<lparr>epg_name = ''epg1'',
             epg_children = [EpgFolder sample_folder, EpgFolder dns_folder]\<rparr>]\<rparr>]\<rparr>"

section \<open>Example cluster records\<close>

definition devmgr_record :: dict where
  "devmgr_record =
     [(''vnsDevMgr'',
       JObj [(''attributes'',
              JObj [(''dn'', JStr ''uni/tn-T1/devMgr-pan''), (''name'', JStr ''pan'')])])]"

definition mdevatt_record :: "string \<Rightarrow> dict" where
  "mdevatt_record tDn =
     [(''vnsRsMDevAtt'',
       JObj [(''attributes'',
              JObj [(''dn'', JStr ''uni/tn-T1/lDevVip-fw1/rsMDevAtt''), (''tDn'', JStr tDn)])])]"

section \<open>Example invocations\<close>

definition revert_only_args :: args where
  "revert_only_args =
     \<lparr>a_parameters = False, a_clusters = False, a_revert = True, a_cleanup = False,
      a_tenant = Some ''T1'', a_app = None, a_dry_run = False, a_debug = False\<rparr>"

definition sample_env :: env where
  "sample_env =
     \<lparr>login_ok = True, tenant_names = [''T1''], app_names = [''app1''],
      deep = [sample_tenant], cluster_rels = [], push_ok = (\<lambda>t c. True)\<rparr>"

definition cleanup_args :: args where
  "cleanup_args =
     \<lparr>a_parameters = False, a_clusters = False, a_revert = False, a_cleanup = True,
      a_tenant = Some ''T1'', a_app = Some ''app1'', a_dry_run = False, a_debug = False\<rparr>"

section \<open>The frame of a tree pass\<close>

lemma for_epgs_eq:
  "for_epgs body cs =
     (map_epgs (\<lambda>e. fst (body e)) cs, \<exists>e \<in> set (epgs_of_children cs). snd (body e))"
  by (induction cs rule: epgs_of_children.induct) (auto simp: map_epgs_def split: prod.splits)

lemma tree_pass_fst: "fst (tree_pass body t a) = map_app_epgs (\<lambda>e. fst (body e)) t a"
  by (simp add: tree_pass_def map_app_epgs_def for_epgs_eq split: option.splits)

lemma tree_pass_snd: "snd (tree_pass body t a) = (\<exists>e \<in> set (epgs_of t a). snd (body e))"
  by (auto simp: tree_pass_def epgs_of_def for_epgs_eq split: option.splits)

lemma get_child_put_child:
  "get_child cs n = Some a \<Longrightarrow> ap_name a' = n \<Longrightarrow> get_child (put_child cs n a') n = Some a'"
  by (induction cs n rule: get_child.induct) auto

lemma get_child_name: "get_child cs n = Some a \<Longrightarrow> ap_name a = n"
  by (induction cs n rule: get_child.induct) (auto split: if_splits)

lemma put_child_twice:
  "ap_name a1 = n \<Longrightarrow> put_child (put_child cs n a1) n a2 = put_child cs n a2"
  by (induction cs n a1 rule: put_child.induct) auto

lemma put_child_same: "get_child cs n = Some a \<Longrightarrow> put_child cs n a = cs"
  by (induction cs n rule: get_child.induct) (auto split: if_splits)

lemma map_epgs_comp: "map_epgs g (map_epgs h cs) = map_epgs (\<lambda>e. g (h e)) cs"
  by (induction cs rule: epgs_of_children.induct) (auto simp: map_epgs_def)

lemma map_epgs_cong:
  "(\<And>e. e \<in> set (epgs_of_children cs) \<Longrightarrow> g e = h e) \<Longrightarrow> map_epgs g cs = map_epgs h cs"
  by (induction cs rule: epgs_of_children.induct) (auto simp: map_epgs_def)

lemma map_epgs_id:
  "(\<And>e. e \<in> set (epgs_of_children cs) \<Longrightarrow> g e = e) \<Longrightarrow> map_epgs g cs = cs"
  by (induction cs rule: epgs_of_children.induct) (auto simp: map_epgs_def)

lemma epgs_of_children_map: "epgs_of_children (map_epgs g cs) = map g (epgs_of_children cs)"
  by (induction cs rule: epgs_of_children.induct) (auto simp: map_epgs_def)

lemma map_app_epgs_comp:
  "map_app_epgs g (map_app_epgs h t a) a = map_app_epgs (\<lambda>e. g (h e)) t a"
  by (auto simp: map_app_epgs_def get_child_put_child get_child_name put_child_twice map_epgs_comp
      split: option.splits)

lemma map_app_epgs_cong:
  "(\<And>e. e \<in> set (epgs_of t a) \<Longrightarrow> g e = h e) \<Longrightarrow> map_app_epgs g t a = map_app_epgs h t a"
proof (cases "get_child (tn_children t) a")
  case None
  then show ?thesis by (simp add: map_app_epgs_def)
next
  case (Some app)
  assume h: "\<And>e. e \<in> set (epgs_of t a) \<Longrightarrow> g e = h e"
  have "map_epgs g (ap_children app) = map_epgs h (ap_children app)"
    using h Some by (intro map_epgs_cong) (simp add: epgs_of_def)
  then show ?thesis using Some by (simp add: map_app_epgs_def)
qed

lemma map_app_epgs_id:
  "(\<And>e. e \<in> set (epgs_of t a) \<Longrightarrow> g e = e) \<Longrightarrow> map_app_epgs g t a = t"
  by (auto simp: map_app_epgs_def epgs_of_def map_epgs_id put_child_same split: option.splits)

lemma epgs_of_map_app_epgs: "epgs_of (map_app_epgs g t a) a = map g (epgs_of t a)"
  by (auto simp: map_app_epgs_def epgs_of_def get_child_put_child get_child_name
      epgs_of_children_map split: option.splits)

section \<open>Interface folder key rename: facts\<close>

lemma length_premigration: "length premigration = 13"
  by (simp add: premigration_def)

lemma endswith_append: "endswith (s @ suf) suf"
  by (simp add: endswith_def)

lemma folder_sel_simps:
  "f_name (set_name f v) = v" "f_key (set_name f v) = f_key f"
  "f_name (set_key f v) = f_name f" "f_key (set_key f v) = v"
  "f_name (set_ctrctNameOrLbl f v) = f_name f" "f_key (set_ctrctNameOrLbl f v) = f_key f"
  "ctrctNameOrLbl (set_ctrctNameOrLbl f v) = v"
  "ctrctNameOrLbl (set_name f v) = ctrctNameOrLbl f"
  "f_name (set_children f cs) = f_name f" "f_key (set_children f cs) = f_key f"
  "f_children (set_children f cs) = cs"
  "f_children (set_key f v) = f_children f"
  "f_children (set_name f v) = f_children f"
  "f_name (folder_mark_as_deleted f) = f_name f" "f_key (folder_mark_as_deleted f) = f_key f"
  by (cases f; simp add: set_name_def set_key_def set_ctrctNameOrLbl_def set_children_def
      folder_mark_as_deleted_def)+

lemma migrate_folder_key: "f_key (migrate_folder f) = ''Interface''"
  by (simp add: migrate_folder_def Let_def folder_sel_simps)

lemma make_backup_name: "f_name (make_backup f) = f_name f @ premigration"
  by (simp add: make_backup_def Let_def folder_sel_simps)

lemma make_backup_key: "f_key (make_backup f) = f_key f"
  by (simp add: make_backup_def Let_def folder_sel_simps)

lemma not_needs_migrate_folder: "\<not> needs_key_migration (migrate_folder f)"
  by (simp add: needs_key_migration_def migrate_folder_key)

lemma not_needs_make_backup: "\<not> needs_key_migration (make_backup f)"
  by (simp add: needs_key_migration_def make_backup_name endswith_append)

lemma mifk_folders_eq:
  "mifk_folders cs =
     (map_folders (\<lambda>f. if needs_key_migration f then migrate_folder f else f) cs,
      map (\<lambda>f. EpgFolder (make_backup f)) (filter needs_key_migration (folders_of cs)),
      \<exists>f \<in> set (folders_of cs). needs_key_migration f)"
  by (induction cs rule: folders_of.induct) (auto simp: map_folders_def)

lemma folders_of_append: "folders_of (xs @ ys) = folders_of xs @ folders_of ys"
  by (induction xs rule: folders_of.induct) auto

lemma folders_of_map_folders: "folders_of (map_folders g cs) = map g (folders_of cs)"
  by (induction cs rule: folders_of.induct) (auto simp: map_folders_def)

lemma folders_of_map_EpgFolder: "folders_of (map (\<lambda>f. EpgFolder (g f)) fs) = map g fs"
  by (induction fs) auto

lemma map_folders_id:
  "(\<And>f. f \<in> set (folders_of cs) \<Longrightarrow> g f = f) \<Longrightarrow> map_folders g cs = cs"
  by (induction cs rule: folders_of.induct) (auto simp: map_folders_def)

lemma mifk_epg_twice: "mifk_epg (fst (mifk_epg e)) = (fst (mifk_epg e), False)"
proof -
  let ?cs = "epg_children (fst (mifk_epg e))"
  have none: "\<And>f. f \<in> set (folders_of ?cs) \<Longrightarrow> \<not> needs_key_migration f"
    by (auto simp: mifk_epg_def mifk_folders_eq folders_of_append folders_of_map_folders
        folders_of_map_EpgFolder not_needs_migrate_folder not_needs_make_backup)
  have "mifk_folders ?cs = (?cs, [], False)"
    unfolding mifk_folders_eq using none
    by (auto intro!: map_folders_id simp: filter_empty_conv)
  then show ?thesis by (simp add: mifk_epg_def[of "fst (mifk_epg e)"])
qed

lemma tree_pass_twice:
  assumes "\<And>e. body (fst (body e)) = (fst (body e), False)"
  shows "tree_pass body (fst (tree_pass body t a)) a = (fst (tree_pass body t a), False)"
proof -
  let ?t1 = "fst (tree_pass body t a)"
  have "fst (tree_pass body ?t1 a) = map_app_epgs (\<lambda>e. fst (body (fst (body e)))) t a"
    by (simp add: tree_pass_fst map_app_epgs_comp)
  also have "\<dots> = ?t1" by (simp add: assms tree_pass_fst)
  finally have 1: "fst (tree_pass body ?t1 a) = ?t1" .
  have 2: "snd (tree_pass body ?t1 a) = False"
    by (auto simp: tree_pass_snd tree_pass_fst epgs_of_map_app_epgs assms)
  show ?thesis using 1 2 by (simp add: prod_eq_iff)
qed

lemma get_child_None_iff:
  "get_child cs n = None \<longleftrightarrow> n \<notin> set (app_profile_names cs)"
  by (induction cs n rule: get_child.induct) auto

lemma migrate_folder_children:
  "f_children (migrate_folder f) = map migrate_subfolder (f_children f)"
  by (simp add: migrate_folder_def Let_def folder_sel_simps)

section \<open>Cluster records: facts\<close>



lemma has_key_mdevatt: "has_key (mdevatt_record t) ''vnsRsMDevAtt''"
  by (simp add: has_key_def mdevatt_record_def)


section \<open>Invocation: facts\<close>

lemma parse_args_invalid:
  "invalid_combination args \<Longrightarrow> \<not> falsy (a_tenant args) \<Longrightarrow> \<not> falsy (a_app args)
     \<Longrightarrow> parse_args args = Exit 1"
  by (auto simp: invalid_combination_def parse_args_def)

lemma parse_args_Return: "parse_args args = Return args' \<Longrightarrow> args' = args"
  by (auto simp: parse_args_def split: if_splits)

lemma main_invalid_no_fetch:
  assumes "invalid_combination args"
  shows "GetDeep \<notin> set (fst (main env args)) \<and> pushes (fst (main env args)) = []"
proof (cases "parse_args args")
  case (Exit n)
  then show ?thesis by (simp add: main_def pushes_def)
next
  case (Return args')
  then have eq: "args' = args" by (rule parse_args_Return)
  have f: "falsy (a_tenant args) \<or> falsy (a_app args)"
    using parse_args_invalid[OF assms] Return by auto
  show ?thesis
  proof (cases "a_parameters args \<or> a_cleanup args")
    case True
    then show ?thesis using Return eq f
      by (auto simp: main_def pushes_def)
  next
    case False
    then have r: "\<not> a_clusters args \<or> a_revert args" "\<not> (a_revert args \<and> a_clusters args)"
      using assms by (auto simp: invalid_combination_def)
    show ?thesis using Return eq f False r
      by (auto simp: main_def pushes_def run_passes_def revert_steps_def final_push_def Let_def)
  qed
qed

section \<open>Cleanup: facts\<close>

lemma get_child_all_epgs:
  "get_child cs n = Some app \<Longrightarrow> set (epgs_of_children (ap_children app)) \<subseteq> set (all_epgs cs)"
  by (induction cs n rule: get_child.induct) (auto split: if_splits)

lemma epgs_of_all_epgs: "set (epgs_of t a) \<subseteq> set (all_epgs (tn_children t))"
proof (cases "get_child (tn_children t) a")
  case None
  then show ?thesis by (simp add: epgs_of_def)
next
  case (Some app)
  then show ?thesis using get_child_all_epgs[OF Some] by (simp add: epgs_of_def)
qed

lemma tree_pass_id:
  assumes "\<And>e. e \<in> set (epgs_of t a) \<Longrightarrow> body e = (e, False)"
  shows "tree_pass body t a = (t, False)"
proof -
  have "fst (tree_pass body t a) = t"
    unfolding tree_pass_fst by (rule map_app_epgs_id) (simp add: assms)
  moreover have "\<not> snd (tree_pass body t a)"
    by (simp add: tree_pass_snd assms)
  ultimately show ?thesis by (simp add: prod_eq_iff)
qed

lemma cleanup_folders_eq:
  "cleanup_folders cs =
     (map_folders (\<lambda>f. if is_backup f then folder_mark_as_deleted f else f) cs,
      \<exists>f \<in> set (folders_of cs). is_backup f)"
  by (induction cs rule: folders_of.induct) (auto simp: map_folders_def)

lemma cleanup_epg_id:
  assumes "\<And>f. f \<in> set (folders_of (epg_children e)) \<Longrightarrow> \<not> is_backup f"
  shows "cleanup_epg e = (e, False)"
proof -
  have "map_folders (\<lambda>f. if is_backup f then folder_mark_as_deleted f else f) (epg_children e)
          = epg_children e"
    by (rule map_folders_id) (simp add: assms)
  then show ?thesis using assms by (simp add: cleanup_epg_def cleanup_folders_eq)
qed

lemma cleanup_no_backups:
  assumes "backup_folders tenant = []"
  shows "cleanup_interface_folders tenant app_name = (tenant, False)"
  unfolding cleanup_interface_folders_def
proof (rule tree_pass_id)
  fix e assume "e \<in> set (epgs_of tenant app_name)"
  then have "e \<in> set (all_epgs (tn_children tenant))" using epgs_of_all_epgs by blast
  then have "\<And>f. f \<in> set (folders_of (epg_children e)) \<Longrightarrow> \<not> is_backup f"
    using assms by (auto simp: backup_folders_def filter_empty_conv)
  then show "cleanup_epg e = (e, False)" by (rule cleanup_epg_id)
qed

lemma parse_args_cleanup:
  "parse_args args = Return args' \<Longrightarrow> a_cleanup args \<Longrightarrow> \<not> falsy (a_tenant args)
     \<Longrightarrow> \<not> falsy (a_app args)
     \<Longrightarrow> \<not> a_parameters args \<and> \<not> a_clusters args \<and> \<not> a_revert args"
  by (auto simp: parse_args_def split: if_splits)

lemma cleanup_invocation_no_push:
  assumes "backup_folders tenant = []" "a_cleanup args" "deep env = tenant # others"
  shows "pushes (fst (main env args)) = []"
proof (cases "parse_args args")
  case (Exit n)
  then show ?thesis by (simp add: main_def pushes_def)
next
  case (Return args')
  then have eq: "args' = args" by (rule parse_args_Return)
  show ?thesis
  proof (cases "falsy (a_tenant args) \<or> falsy (a_app args)")
    case True
    then show ?thesis using Return eq assms(2) by (auto simp: main_def pushes_def)
  next
    case False
    then have fl: "\<not> a_parameters args" "\<not> a_clusters args" "\<not> a_revert args"
      using parse_args_cleanup[OF Return assms(2)] by auto
    have rp: "run_passes env args evs tenant = (evs, Finished)" for evs
      using fl assms(2) cleanup_no_backups[OF assms(1)]
      by (simp add: run_passes_def revert_steps_def final_push_def Let_def)
    show ?thesis using Return eq assms(2,3) False
      by (auto simp: main_def pushes_def rp)
  qed
qed

section \<open>Closed forms of the forward loops\<close>

lemma mzv_params_eq:
  "mzv_params folder lf cs =
     (map_params (\<lambda>p. if zv_hit p then param_mark_as_deleted p else p) cs,
      map (\<lambda>p. ChildRelation (zone_vlan_relation (zone_vlan_folder folder lf p) p))
        (filter zv_hit (params_of cs)),
      map (\<lambda>p. EpgFolder (zone_vlan_folder folder lf p)) (filter zv_hit (params_of cs)),
      \<exists>p \<in> set (params_of cs). zv_hit p)"
  by (induction cs rule: params_of.induct) (auto simp: map_params_def zv_hit_def Let_def)

lemma mzv_layerfolders_fst:
  "fst (mzv_layerfolders folder cs) =
     map_subfolders (\<lambda>lf. if is_layer_key (f_key lf) then mzv_layer folder lf else lf) cs"
  by (induction cs rule: subfolders_of.induct)
     (auto simp: map_subfolders_def mzv_layer_def mzv_params_eq split: prod.splits)

lemma mzv_layerfolders_news:
  "fst (snd (mzv_layerfolders folder cs)) =
     concat (map (\<lambda>lf. map (\<lambda>p. EpgFolder (zone_vlan_folder folder lf p))
                          (filter zv_hit (params_of (f_children lf))))
               (filter (\<lambda>lf. is_layer_key (f_key lf)) (subfolders_of cs)))"
  by (induction cs rule: subfolders_of.induct)
     (auto simp: mzv_params_eq split: prod.splits)

lemma mzv_folders_fst:
  "fst (mzv_folders cs) =
     map_folders (\<lambda>f. if f_key f = ''Interface'' then mzv_folder f else f) cs"
proof (induction cs rule: folders_of.induct)
  case (2 f cs)
  have "fst (mzv_layerfolders f (f_children f)) = f_children (mzv_folder f)"
    by (simp add: mzv_layerfolders_fst mzv_folder_def folder_sel_simps)
  then have "set_children f (fst (mzv_layerfolders f (f_children f))) = mzv_folder f"
    by (simp add: mzv_layerfolders_fst mzv_folder_def)
  with 2 show ?case by (auto simp: map_folders_def split: prod.splits)
qed (auto simp: map_folders_def split: prod.splits)

lemma mzv_folders_news:
  "fst (snd (mzv_folders cs)) =
     concat (map mzv_news (filter (\<lambda>f. f_key f = ''Interface'') (folders_of cs)))"
proof (induction cs rule: folders_of.induct)
  case (2 f cs)
  have "fst (snd (mzv_layerfolders f (f_children f))) = mzv_news f"
    by (simp add: mzv_layerfolders_news mzv_news_def)
  with 2 show ?case by (auto split: prod.splits)
qed (auto split: prod.splits)

lemma mzv_epg_children:
  "epg_children (fst (mzv_epg e)) =
     map_folders (\<lambda>f. if f_key f = ''Interface'' then mzv_folder f else f) (epg_children e)
     @ concat (map mzv_news (filter (\<lambda>f. f_key f = ''Interface'') (folders_of (epg_children e))))"
  using mzv_folders_fst[of "epg_children e"] mzv_folders_news[of "epg_children e"]
  by (auto simp: mzv_epg_def split: prod.splits)

lemma mdg_params_eq:
  "mdg_params folder cs =
     (map_params (\<lambda>p. if dg_hit p then param_mark_as_deleted p else p) cs,
      map (\<lambda>p. EpgFolder (static_route_folder folder p)) (filter dg_hit (params_of cs)),
      \<exists>p \<in> set (params_of cs). dg_hit p)"
  by (induction cs rule: params_of.induct) (auto simp: map_params_def dg_hit_def)

lemma mdg_layerfolders_fst:
  "fst (mdg_layerfolders folder cs) =
     map_subfolders (\<lambda>lf. if is_layer_key (f_key lf) then mdg_layer lf else lf) cs"
  by (induction cs rule: subfolders_of.induct)
     (auto simp: map_subfolders_def mdg_layer_def mdg_params_eq split: prod.splits)

lemma mdg_layerfolders_news:
  "fst (snd (mdg_layerfolders folder cs)) =
     concat (map (\<lambda>lf. map (\<lambda>p. EpgFolder (static_route_folder folder p))
                          (filter dg_hit (params_of (f_children lf))))
               (filter (\<lambda>lf. is_layer_key (f_key lf)) (subfolders_of cs)))"
  by (induction cs rule: subfolders_of.induct)
     (auto simp: mdg_params_eq split: prod.splits)

lemma mdg_folders_fst:
  "fst (mdg_folders cs) =
     map_folders (\<lambda>f. if f_key f = ''Interface'' then mdg_folder f else f) cs"
proof (induction cs rule: folders_of.induct)
  case (2 f cs)
  have "set_children f (fst (mdg_layerfolders f (f_children f))) = mdg_folder f"
    by (simp add: mdg_layerfolders_fst mdg_folder_def)
  with 2 show ?case by (auto simp: map_folders_def split: prod.splits)
qed (auto simp: map_folders_def split: prod.splits)

lemma mdg_folders_news:
  "fst (snd (mdg_folders cs)) =
     concat (map mdg_news (filter (\<lambda>f. f_key f = ''Interface'') (folders_of cs)))"
proof (induction cs rule: folders_of.induct)
  case (2 f cs)
  have "fst (snd (mdg_layerfolders f (f_children f))) = mdg_news f"
    by (simp add: mdg_layerfolders_news mdg_news_def)
  with 2 show ?case by (auto split: prod.splits)
qed (auto split: prod.splits)

lemma mdg_epg_children:
  "epg_children (fst (mdg_epg e)) =
     map_folders (\<lambda>f. if f_key f = ''Interface'' then mdg_folder f else f) (epg_children e)
     @ concat (map mdg_news (filter (\<lambda>f. f_key f = ''Interface'') (folders_of (epg_children e))))"
  using mdg_folders_fst[of "epg_children e"] mdg_folders_news[of "epg_children e"]
  by (auto simp: mdg_epg_def split: prod.splits)

lemma mifk_epg_children:
  "epg_children (fst (mifk_epg e)) =
     map_folders (\<lambda>f. if needs_key_migration f then migrate_folder f else f) (epg_children e)
     @ map (\<lambda>f. EpgFolder (make_backup f)) (filter needs_key_migration (folders_of (epg_children e)))"
  by (simp add: mifk_epg_def mifk_folders_eq)

lemma epg_name_passes:
  "epg_name (fst (mifk_epg e)) = epg_name e"
  "epg_name (fst (mzv_epg e)) = epg_name e"
  "epg_name (fst (mdg_epg e)) = epg_name e"
  by (auto simp: mifk_epg_def mzv_epg_def mdg_epg_def split: prod.splits)

section \<open>Backups under the forward passes: facts\<close>

lemma length_put_child: "length (put_child cs n a') = length cs"
  by (induction cs n a' rule: put_child.induct) auto

lemma put_child_nth:
  "get_child cs n = Some a \<Longrightarrow> i < length cs
     \<Longrightarrow> put_child cs n a' ! i = cs ! i \<or> (cs ! i = TenantApp a \<and> put_child cs n a' ! i = TenantApp a')"
proof (induction cs n arbitrary: i rule: get_child.induct)
  case (2 x cs n)
  then show ?case by (cases i) (auto split: if_splits)
next
  case (3 x cs n)
  then show ?case by (cases i) auto
qed simp

lemma folder_at_map_app_epgs:
  assumes g: "keeps_backups g" and at: "folder_at t i j k = Some b" and b: "is_backup b"
  shows "folder_at (map_app_epgs g t a) i j k = Some b"
proof (cases "get_child (tn_children t) a")
  case None
  then show ?thesis using at by (simp add: map_app_epgs_def)
next
  case (Some app)
  let ?app' = "app\<lparr>ap_children := map_epgs g (ap_children app)\<rparr>"
  let ?cs' = "put_child (tn_children t) a ?app'"
  from at have i: "i < length (tn_children t)"
    by (auto simp: folder_at_def split: if_splits)
  from at obtain ap e where
    ap: "tn_children t ! i = TenantApp ap" and j: "j < length (ap_children ap)"
    and e: "ap_children ap ! j = AppEPG e" and k: "k < length (epg_children e)"
    and f: "epg_children e ! k = EpgFolder b"
    by (auto simp: folder_at_def split: if_splits tenant_child.splits app_child.splits
        epg_child.splits)
  have t': "tn_children (map_app_epgs g t a) = ?cs'" using Some by (simp add: map_app_epgs_def)
  from put_child_nth[OF Some i, of ?app'] consider
    (same) "?cs' ! i = tn_children t ! i" |
    (upd) "tn_children t ! i = TenantApp app" "?cs' ! i = TenantApp ?app'" by blast
  then show ?thesis
  proof cases
    case same
    then show ?thesis using at i by (simp add: folder_at_def t' length_put_child)
  next
    case upd
    then have "ap = app" using ap by simp
    from g k f b have "k < length (epg_children (g e)) \<and> epg_children (g e) ! k = EpgFolder b"
      unfolding keeps_backups_def by blast
    then show ?thesis using upd i j e \<open>ap = app\<close>
      by (simp add: folder_at_def t' length_put_child map_epgs_def)
  qed
qed

lemma appended_keeps:
  assumes "\<And>b. is_backup b \<Longrightarrow> G b = b"
    and "\<And>e. epg_children (g e) = map_folders G (epg_children e) @ extra e"
  shows "keeps_backups g"
  unfolding keeps_backups_def using assms
  by (auto simp: map_folders_def nth_append)

lemma backup_key: "is_backup b \<Longrightarrow> f_key b = ''InterfaceConfig''"
  by (simp add: is_backup_def)

lemma keeps_mifk: "keeps_backups (\<lambda>e. fst (mifk_epg e))"
  by (rule appended_keeps[where G = "\<lambda>f. if needs_key_migration f then migrate_folder f else f"
        and extra = "\<lambda>e. map (\<lambda>f. EpgFolder (make_backup f))
                            (filter needs_key_migration (folders_of (epg_children e)))"])
     (auto simp: mifk_epg_children is_backup_def needs_key_migration_def)

lemma keeps_mzv: "keeps_backups (\<lambda>e. fst (mzv_epg e))"
  by (rule appended_keeps[where G = "\<lambda>f. if f_key f = ''Interface'' then mzv_folder f else f"
        and extra = "\<lambda>e. concat (map mzv_news
                         (filter (\<lambda>f. f_key f = ''Interface'') (folders_of (epg_children e))))"])
     (auto simp: mzv_epg_children is_backup_def)

lemma keeps_mdg: "keeps_backups (\<lambda>e. fst (mdg_epg e))"
  by (rule appended_keeps[where G = "\<lambda>f. if f_key f = ''Interface'' then mdg_folder f else f"
        and extra = "\<lambda>e. concat (map mdg_news
                         (filter (\<lambda>f. f_key f = ''Interface'') (folders_of (epg_children e))))"])
     (auto simp: mdg_epg_children is_backup_def)

lemma run_forward_keeps:
  "folder_at t i j k = Some b \<Longrightarrow> is_backup b \<Longrightarrow> folder_at (run_forward p t a) i j k = Some b"
  by (cases p)
     (simp_all add: migrate_interface_folder_keys_def migrate_zones_and_vlans_def
        migrate_default_gateway_def tree_pass_fst folder_at_map_app_epgs keeps_mifk keeps_mzv
        keeps_mdg)

section \<open>Forward passes and revert: facts\<close>

lemma delete_folders_fst:
  "fst (delete_folders cs) =
     map_folders (\<lambda>f. if is_migrated_key (f_key f) then folder_mark_as_deleted f else f) cs"
  by (induction cs rule: folders_of.induct) (auto simp: map_folders_def split: prod.splits)

lemma restore_folders_eq:
  "restore_folders cs =
     (map_folders (\<lambda>f. if endswith (f_name f) premigration then restore_folder f else f) cs,
      map (\<lambda>f. EpgFolder (folder_mark_as_deleted f))
        (filter (\<lambda>f. endswith (f_name f) premigration) (folders_of cs)),
      \<exists>f \<in> set (folders_of cs). endswith (f_name f) premigration)"
  by (induction cs rule: folders_of.induct) (auto simp: map_folders_def)

lemma remove_migrated_append:
  "remove_migrated (xs @ ys) = remove_migrated xs @ remove_migrated ys"
  by (induction xs rule: remove_migrated.induct) auto

lemma remove_migrated_map_folders:
  assumes "\<And>f. is_migrated_key (f_key f) \<Longrightarrow> is_migrated_key (f_key (g f))"
    and "\<And>f. \<not> is_migrated_key (f_key f) \<Longrightarrow> g f = f"
  shows "remove_migrated (map_folders g cs) = remove_migrated cs"
  by (induction cs rule: remove_migrated.induct) (auto simp: map_folders_def assms)

lemma remove_migrated_all:
  "(\<And>c. c \<in> set xs \<Longrightarrow> \<exists>f. c = EpgFolder f \<and> is_migrated_key (f_key f))
     \<Longrightarrow> remove_migrated xs = []"
  by (induction xs rule: remove_migrated.induct) auto

lemma remove_migrated_none:
  "(\<And>f. f \<in> set (folders_of xs) \<Longrightarrow> \<not> is_migrated_key (f_key f))
     \<Longrightarrow> remove_migrated xs = xs"
  by (induction xs rule: remove_migrated.induct) auto

lemma zone_vlan_folder_key:
  "zv_hit p \<Longrightarrow> is_migrated_key (f_key (zone_vlan_folder folder lf p))"
  by (auto simp: zv_hit_def zone_vlan_folder_def Let_def is_migrated_key_def aci_Folder_def
      set_key_def set_ctrctNameOrLbl_def set_devCtxLbl_def set_graphNameOrLbl_def
      set_nodeNameOrLbl_def set_scopedBy_def set_children_def add_child_def)

lemma static_route_folder_key: "f_key (static_route_folder folder p) = ''StaticRoute''"
  by (simp add: static_route_folder_def Let_def aci_Folder_def
      set_key_def set_ctrctNameOrLbl_def set_devCtxLbl_def set_graphNameOrLbl_def
      set_nodeNameOrLbl_def set_scopedBy_def set_children_def add_child_def)

lemma mzv_news_keys:
  "c \<in> set (concat (map mzv_news fs)) \<Longrightarrow> \<exists>f. c = EpgFolder f \<and> is_migrated_key (f_key f)"
  by (auto simp: mzv_news_def zone_vlan_folder_key)

lemma mdg_news_keys:
  "c \<in> set (concat (map mdg_news fs)) \<Longrightarrow> \<exists>f. c = EpgFolder f \<and> is_migrated_key (f_key f)"
  by (auto simp: mdg_news_def static_route_folder_key is_migrated_key_def)

lemma remove_migrated_mzv:
  "remove_migrated (epg_children (fst (mzv_epg e))) = remove_migrated (epg_children e)"
proof -
  have "remove_migrated (map_folders (\<lambda>f. if f_key f = ''Interface'' then mzv_folder f else f)
          (epg_children e)) = remove_migrated (epg_children e)"
    by (rule remove_migrated_map_folders)
       (auto simp: mzv_folder_def folder_sel_simps is_migrated_key_def)
  moreover have "remove_migrated (concat (map mzv_news
      (filter (\<lambda>f. f_key f = ''Interface'') (folders_of (epg_children e))))) = []"
    by (rule remove_migrated_all) (rule mzv_news_keys)
  ultimately show ?thesis by (simp add: mzv_epg_children remove_migrated_append)
qed

lemma remove_migrated_mdg:
  "remove_migrated (epg_children (fst (mdg_epg e))) = remove_migrated (epg_children e)"
proof -
  have "remove_migrated (map_folders (\<lambda>f. if f_key f = ''Interface'' then mdg_folder f else f)
          (epg_children e)) = remove_migrated (epg_children e)"
    by (rule remove_migrated_map_folders)
       (auto simp: mdg_folder_def folder_sel_simps is_migrated_key_def)
  moreover have "remove_migrated (concat (map mdg_news
      (filter (\<lambda>f. f_key f = ''Interface'') (folders_of (epg_children e))))) = []"
    by (rule remove_migrated_all) (rule mdg_news_keys)
  ultimately show ?thesis by (simp add: mdg_epg_children remove_migrated_append)
qed

lemma remove_migrated_delete:
  "remove_migrated (epg_children (fst (delete_epg e))) = remove_migrated (epg_children e)"
proof -
  have "epg_children (fst (delete_epg e)) = fst (delete_folders (epg_children e))"
    by (simp add: delete_epg_def split: prod.splits)
  then show ?thesis
    by (simp add: delete_folders_fst)
       (rule remove_migrated_map_folders, auto simp: folder_sel_simps)
qed

lemma restore_make_backup: "restore_folder (make_backup f) = f"
  by (cases f)
     (simp add: restore_folder_def make_backup_def Let_def set_name_def set_ctrctNameOrLbl_def
        length_premigration)

lemma legacy_needs: "legacy_folder f \<Longrightarrow> needs_key_migration f \<longleftrightarrow> f_key f = ''InterfaceConfig''"
  by (auto simp: legacy_folder_def needs_key_migration_def)

lemma remove_migrated_mifk:
  assumes "list_all legacy_folder (folders_of cs)"
  shows "remove_migrated
           (map_folders (\<lambda>f. if needs_key_migration f then migrate_folder f else f) cs)
         = filter (\<lambda>c. \<not> is_interface_config c) cs"
  using assms
  by (induction cs rule: folders_of.induct)
     (auto simp: map_folders_def migrate_folder_key is_migrated_key_def is_interface_config_def
        legacy_needs, auto simp: legacy_folder_def is_migrated_key_def)

lemma backups_eq:
  assumes "list_all legacy_folder (folders_of cs)"
  shows "map (\<lambda>f. EpgFolder (make_backup f)) (filter needs_key_migration (folders_of cs))
         = map backup_child (filter is_interface_config cs)"
  using assms
  by (induction cs rule: folders_of.induct)
     (auto simp: is_interface_config_def legacy_needs backup_child_def)

lemma restore_folders_append:
  "restore_folders (xs @ ys) =
     (fst (restore_folders xs) @ fst (restore_folders ys),
      fst (snd (restore_folders xs)) @ fst (snd (restore_folders ys)),
      snd (snd (restore_folders xs)) \<or> snd (snd (restore_folders ys)))"
  by (auto simp: restore_folders_eq map_folders_def folders_of_append)

lemma restore_backups:
  "restore_folders (map backup_child (filter is_interface_config cs)) =
     (filter is_interface_config cs, map deleted_backup (filter is_interface_config cs),
      filter is_interface_config cs \<noteq> [])"
  by (induction cs)
     (auto simp: is_interface_config_def backup_child_def deleted_backup_def make_backup_name
        endswith_append restore_make_backup split: epg_child.splits)

lemma restore_others:
  assumes "list_all legacy_folder (folders_of cs)"
  shows "restore_folders (filter (\<lambda>c. \<not> is_interface_config c) cs) =
           (filter (\<lambda>c. \<not> is_interface_config c) cs, [], False)"
  using assms
  by (induction cs rule: folders_of.induct) (auto simp: legacy_folder_def)

lemma remove_migrated_backups:
  "remove_migrated (map backup_child (filter is_interface_config cs))
     = map backup_child (filter is_interface_config cs)"
  by (induction cs)
     (auto simp: is_interface_config_def backup_child_def make_backup_key is_migrated_key_def
        split: epg_child.splits)

lemma epg_eqI:
  fixes a b :: epg
  shows "epg_name a = epg_name b \<Longrightarrow> epg_children a = epg_children b \<Longrightarrow> a = b"
  by simp

lemma epg_name_delete: "epg_name (fst (delete_epg e)) = epg_name e"
  by (simp add: delete_epg_def split: prod.splits)

lemma revert_epg_fst:
  "fst (revert_epg e) =
     e\<lparr>epg_children := fst (restore_folders (remove_migrated (epg_children e)))
                        @ fst (snd (restore_folders (remove_migrated (epg_children e))))\<rparr>"
  by (simp add: revert_epg_def split: prod.splits)

lemma round_trip_epg_eq:
  assumes "list_all legacy_folder (folders_of (epg_children e))"
  shows "fst (revert_epg (fst (delete_epg (fst (mdg_epg (fst (mzv_epg (fst (mifk_epg e)))))))))
           = round_trip_epg e"
proof -
  let ?cs = "epg_children e"
  let ?E = "fst (delete_epg (fst (mdg_epg (fst (mzv_epg (fst (mifk_epg e)))))))"
  note leg = assms
  have "remove_migrated (epg_children ?E) = remove_migrated (epg_children (fst (mifk_epg e)))"
    by (simp add: remove_migrated_delete remove_migrated_mdg remove_migrated_mzv)
  also have "\<dots> = filter (\<lambda>c. \<not> is_interface_config c) ?cs
                  @ map backup_child (filter is_interface_config ?cs)"
    by (simp add: mifk_epg_children remove_migrated_append remove_migrated_mifk[OF leg]
        backups_eq[OF leg] remove_migrated_backups)
  finally have rm: "remove_migrated (epg_children ?E) =
      filter (\<lambda>c. \<not> is_interface_config c) ?cs @ map backup_child (filter is_interface_config ?cs)" .
  have ch: "epg_children (fst (revert_epg ?E)) = round_trip_children ?cs"
    by (simp add: revert_epg_fst rm restore_folders_append restore_backups restore_others[OF leg]
        round_trip_children_def)
  have nm: "epg_name (fst (revert_epg ?E)) = epg_name e"
    by (simp add: revert_epg_fst epg_name_delete epg_name_passes)
  show ?thesis by (rule epg_eqI) (simp_all add: ch nm round_trip_epg_def)
qed

lemma folders_of_concat: "folders_of (concat xss) = concat (map folders_of xss)"
  by (induction xss) (auto simp: folders_of_append)

lemma subfolders_of_append: "subfolders_of (xs @ ys) = subfolders_of xs @ subfolders_of ys"
  by (induction xs rule: subfolders_of.induct) auto

lemma params_of_append: "params_of (xs @ ys) = params_of xs @ params_of ys"
  by (induction xs rule: params_of.induct) auto

lemma relations_of_append: "relations_of (xs @ ys) = relations_of xs @ relations_of ys"
  by (induction xs rule: relations_of.induct) auto

lemma subfolders_of_map_subfolders: "subfolders_of (map_subfolders g cs) = map g (subfolders_of cs)"
  by (induction cs rule: subfolders_of.induct) (auto simp: map_subfolders_def)

lemma params_of_map_params: "params_of (map_params g cs) = map g (params_of cs)"
  by (induction cs rule: params_of.induct) (auto simp: map_params_def)

lemma relations_of_map_params: "relations_of (map_params g cs) = relations_of cs"
  by (induction cs rule: relations_of.induct) (auto simp: map_params_def split: folder_child.splits)

lemma relations_of_map_ChildRelation: "relations_of (map (\<lambda>p. ChildRelation (g p)) ps) = map g ps"
  by (induction ps) auto

lemma params_of_map_ChildRelation: "params_of (map (\<lambda>p. ChildRelation (g p)) ps) = []"
  by (induction ps) auto

lemma subfolders_of_migrate:
  "subfolders_of (map migrate_subfolder cs) =
     map (\<lambda>s. if f_key s \<noteq> ''Layer3InterfaceConfig'' \<and> f_key s \<noteq> ''Layer2InterfaceConfig''
               then s else set_key s (take 15 (f_key s))) (subfolders_of cs)"
  by (induction cs rule: subfolders_of.induct) (auto simp: migrate_subfolder_def)

lemma mifk_folders_of:
  "folders_of (epg_children (fst (mifk_epg e))) =
     map (\<lambda>f. if needs_key_migration f then migrate_folder f else f) (folders_of (epg_children e))
     @ map make_backup (filter needs_key_migration (folders_of (epg_children e)))"
  by (simp add: mifk_epg_children folders_of_append folders_of_map_folders
      folders_of_map_EpgFolder)

lemma mzv_news_folders:
  "folders_of (mzv_news f) =
     concat (map (\<lambda>lf. map (\<lambda>p. zone_vlan_folder f lf p) (filter zv_hit (params_of (f_children lf))))
               (filter (\<lambda>lf. is_layer_key (f_key lf)) (subfolders_of (f_children f))))"
  by (simp add: mzv_news_def folders_of_concat comp_def folders_of_map_EpgFolder)

lemma mdg_news_folders:
  "folders_of (mdg_news f) =
     concat (map (\<lambda>lf. map (\<lambda>p. static_route_folder f p) (filter dg_hit (params_of (f_children lf))))
               (filter (\<lambda>lf. is_layer_key (f_key lf)) (subfolders_of (f_children f))))"
  by (simp add: mdg_news_def folders_of_concat comp_def folders_of_map_EpgFolder)

lemma mzv_folders_of:
  "folders_of (epg_children (fst (mzv_epg e))) =
     map (\<lambda>f. if f_key f = ''Interface'' then mzv_folder f else f) (folders_of (epg_children e))
     @ concat (map (\<lambda>f. folders_of (mzv_news f))
                 (filter (\<lambda>f. f_key f = ''Interface'') (folders_of (epg_children e))))"
  by (simp add: mzv_epg_children folders_of_append folders_of_map_folders folders_of_concat
      comp_def)

lemma mdg_folders_of:
  "folders_of (epg_children (fst (mdg_epg e))) =
     map (\<lambda>f. if f_key f = ''Interface'' then mdg_folder f else f) (folders_of (epg_children e))
     @ concat (map (\<lambda>f. folders_of (mdg_news f))
                 (filter (\<lambda>f. f_key f = ''Interface'') (folders_of (epg_children e))))"
  by (simp add: mdg_epg_children folders_of_append folders_of_map_folders folders_of_concat
      comp_def)

lemma mzv_kept:
  "f \<in> set (folders_of (epg_children e)) \<Longrightarrow> f_key f \<noteq> ''Interface''
     \<Longrightarrow> f \<in> set (folders_of (epg_children (fst (mzv_epg e))))"
  by (force simp: mzv_folders_of)

lemma mdg_kept:
  "f \<in> set (folders_of (epg_children e)) \<Longrightarrow> f_key f \<noteq> ''Interface''
     \<Longrightarrow> f \<in> set (folders_of (epg_children (fst (mdg_epg e))))"
  by (force simp: mdg_folders_of)

lemma mzv_rewritten:
  "f \<in> set (folders_of (epg_children e)) \<Longrightarrow> f_key f = ''Interface''
     \<Longrightarrow> mzv_folder f \<in> set (folders_of (epg_children (fst (mzv_epg e))))"
  by (force simp: mzv_folders_of)

lemma mdg_rewritten:
  "f \<in> set (folders_of (epg_children e)) \<Longrightarrow> f_key f = ''Interface''
     \<Longrightarrow> mdg_folder f \<in> set (folders_of (epg_children (fst (mdg_epg e))))"
  by (force simp: mdg_folders_of)

lemma mzv_added:
  "f \<in> set (folders_of (epg_children e)) \<Longrightarrow> f_key f = ''Interface''
     \<Longrightarrow> lf \<in> set (subfolders_of (f_children f)) \<Longrightarrow> is_layer_key (f_key lf)
     \<Longrightarrow> p \<in> set (params_of (f_children lf)) \<Longrightarrow> zv_hit p
     \<Longrightarrow> zone_vlan_folder f lf p \<in> set (folders_of (epg_children (fst (mzv_epg e))))"
  by (force simp: mzv_folders_of mzv_news_folders)

lemma mdg_added:
  "f \<in> set (folders_of (epg_children e)) \<Longrightarrow> f_key f = ''Interface''
     \<Longrightarrow> lf \<in> set (subfolders_of (f_children f)) \<Longrightarrow> is_layer_key (f_key lf)
     \<Longrightarrow> p \<in> set (params_of (f_children lf)) \<Longrightarrow> dg_hit p
     \<Longrightarrow> static_route_folder f p \<in> set (folders_of (epg_children (fst (mdg_epg e))))"
  by (force simp: mdg_folders_of mdg_news_folders)

lemmas setter_defs = set_name_def set_key_def set_ctrctNameOrLbl_def set_devCtxLbl_def
  set_graphNameOrLbl_def set_nodeNameOrLbl_def set_scopedBy_def set_children_def add_child_def
  aci_Folder_def

lemma lower_Layer3: "lower ''Layer3'' = ''layer3''"
  by code_simp

lemma zone_folder_facts:
  assumes "p_key p = ''security_zone''"
  shows "f_key (zone_vlan_folder folder lf p) = ''Zone''"
    and "f_name (zone_vlan_folder folder lf p) = p_value p"
    and "params_of (f_children (zone_vlan_folder folder lf p)) =
           [\<lparr>p_name = ''mode'', p_key = ''mode'', p_value = lower (take 6 (f_key lf)),
             p_deleted = False\<rparr>]"
  using assms by (simp_all add: zone_vlan_folder_def Let_def setter_defs aci_Parameter_def)

lemma zone_relation_facts:
  assumes "p_key p = ''security_zone''"
  shows "r_key (zone_vlan_relation nf p) = ''zone''"
    and "r_targetName (zone_vlan_relation nf p) = f_name nf"
  using assms by (simp_all add: zone_vlan_relation_def Let_def aci_Relation_def)

lemma static_route_facts:
  "f_key (static_route_folder folder p) = ''StaticRoute''"
  "f_name (static_route_folder folder p) = ''default_gateway''"
  "params_of (f_children (static_route_folder folder p)) =
     [\<lparr>p_name = ''nexthop'', p_key = ''nexthop'', p_value = p_value p, p_deleted = False\<rparr>,
      \<lparr>p_name = ''destination'', p_key = ''destination'', p_value = ''0.0.0.0/0'',
       p_deleted = False\<rparr>]"
  by (simp_all add: static_route_folder_def Let_def setter_defs aci_Parameter_def)

lemma mzv_layer_facts:
  "f_key (mzv_layer folder lf) = f_key lf"
  "params_of (f_children (mzv_layer folder lf)) =
     map (\<lambda>p. if zv_hit p then param_mark_as_deleted p else p) (params_of (f_children lf))"
  "relations_of (f_children (mzv_layer folder lf)) =
     relations_of (f_children lf)
     @ map (\<lambda>p. zone_vlan_relation (zone_vlan_folder folder lf p) p)
         (filter zv_hit (params_of (f_children lf)))"
  by (simp_all add: mzv_layer_def folder_sel_simps params_of_append params_of_map_params
      params_of_map_ChildRelation relations_of_append relations_of_map_params
      relations_of_map_ChildRelation)

lemma mdg_layer_facts:
  "f_key (mdg_layer lf) = f_key lf"
  "relations_of (f_children (mdg_layer lf)) = relations_of (f_children lf)"
  by (simp_all add: mdg_layer_def folder_sel_simps relations_of_map_params)

lemma mzv_folder_facts:
  "f_key (mzv_folder f) = f_key f" "f_name (mzv_folder f) = f_name f"
  "subfolders_of (f_children (mzv_folder f)) =
     map (\<lambda>lf. if is_layer_key (f_key lf) then mzv_layer f lf else lf)
       (subfolders_of (f_children f))"
  by (simp_all add: mzv_folder_def folder_sel_simps subfolders_of_map_subfolders)

lemma mdg_folder_facts:
  "f_key (mdg_folder f) = f_key f" "f_name (mdg_folder f) = f_name f"
  "subfolders_of (f_children (mdg_folder f)) =
     map (\<lambda>lf. if is_layer_key (f_key lf) then mdg_layer lf else lf)
       (subfolders_of (f_children f))"
  by (simp_all add: mdg_folder_def folder_sel_simps subfolders_of_map_subfolders)

lemma migrate_folder_facts:
  "f_name (migrate_folder f) = f_name f"
  "subfolders_of (f_children (migrate_folder f)) =
     map (\<lambda>s. if f_key s \<noteq> ''Layer3InterfaceConfig'' \<and> f_key s \<noteq> ''Layer2InterfaceConfig''
               then s else set_key s (take 15 (f_key s))) (subfolders_of (f_children f))"
  by (simp_all add: migrate_folder_def Let_def folder_sel_simps subfolders_of_migrate)

lemma forward_epg_shape:
  assumes f: "f \<in> set (folders_of (epg_children e))"
    and shape: "premigration_shape f"
    and name: "\<not> endswith (f_name f) premigration"
  shows "migrated_shape (f_name f)
           (epg_children (fst (mdg_epg (fst (mzv_epg (fst (mifk_epg e)))))))"
proof -
  let ?e1 = "fst (mifk_epg e)"
  let ?e2 = "fst (mzv_epg ?e1)"
  let ?e3 = "fst (mdg_epg ?e2)"
  from shape obtain l p1 p2 where
    l: "l \<in> set (subfolders_of (f_children f))" "f_key l = ''Layer3InterfaceConfig''"
    and p1: "p1 \<in> set (params_of (f_children l))" "p_key p1 = ''security_zone''"
      "p_value p1 = ''zoneA''"
    and p2: "p2 \<in> set (params_of (f_children l))" "p_key p2 = ''default_gateway''"
      "p_value p2 = ''10.0.0.1''"
    by (auto simp: premigration_shape_def has_param_def list_ex_iff)
  from shape name have needs: "needs_key_migration f"
    by (simp add: premigration_shape_def needs_key_migration_def)
  define f1 where "f1 = migrate_folder f"
  define b where "b = make_backup f"
  define l1 where "l1 = set_key l ''Layer3Interface''"
  define z where "z = zone_vlan_folder f1 l1 p1"
  define f2 where "f2 = mzv_folder f1"
  define l2 where "l2 = mzv_layer f1 l1"
  define s where "s = static_route_folder f2 p2"
  define f3 where "f3 = mdg_folder f2"
  define l3 where "l3 = mdg_layer l2"
  have hit: "zv_hit p1" "\<not> zv_hit p2" "dg_hit p2"
    using p1 p2 by (simp_all add: zv_hit_def dg_hit_def)
  \<comment> \<open>after the key rename\<close>
  have f1_in: "f1 \<in> set (folders_of (epg_children ?e1))"
    and b_in1: "b \<in> set (folders_of (epg_children ?e1))"
    using f needs by (force simp: mifk_folders_of f1_def b_def)+
  have f1_key: "f_key f1 = ''Interface''" by (simp add: f1_def migrate_folder_key)
  have b_key: "f_key b = ''InterfaceConfig''"
    using shape by (simp add: b_def make_backup_key premigration_shape_def)
  have l1_in: "l1 \<in> set (subfolders_of (f_children f1))"
    using l by (force simp: f1_def l1_def migrate_folder_facts)
  have l1_key: "f_key l1 = ''Layer3Interface''" "is_layer_key (f_key l1)"
    by (simp_all add: l1_def folder_sel_simps is_layer_key_def)
  have l1_ch: "f_children l1 = f_children l" by (simp add: l1_def folder_sel_simps)
  \<comment> \<open>after the zone extraction\<close>
  have z_in2: "z \<in> set (folders_of (epg_children ?e2))"
    unfolding z_def using f1_in f1_key l1_in l1_key(2) p1(1) hit(1)
    by (intro mzv_added) (simp_all add: l1_ch)
  have f2_in: "f2 \<in> set (folders_of (epg_children ?e2))"
    unfolding f2_def using f1_in f1_key by (rule mzv_rewritten)
  have b_in2: "b \<in> set (folders_of (epg_children ?e2))"
    using b_in1 b_key by (intro mzv_kept) simp_all
  have f2_key: "f_key f2 = ''Interface''" by (simp add: f2_def mzv_folder_facts f1_key)
  have l2_in: "l2 \<in> set (subfolders_of (f_children f2))"
    using l1_in l1_key(2) by (force simp: f2_def l2_def mzv_folder_facts)
  have l2_key: "f_key l2 = ''Layer3Interface''" "is_layer_key (f_key l2)"
    by (simp_all add: l2_def mzv_layer_facts l1_key is_layer_key_def)
  have p2_in: "p2 \<in> set (params_of (f_children l2))"
    using p2(1) hit(2) by (force simp: l2_def mzv_layer_facts l1_ch)
  have z_facts: "f_key z = ''Zone''" "f_name z = ''zoneA''" "has_param ''mode'' ''layer3'' z"
    using p1 by (simp_all add: z_def zone_folder_facts has_param_def l1_key lower_Layer3)
  have rel: "zone_vlan_relation z p1 \<in> set (relations_of (f_children l2))"
    using p1(1) hit(1) by (simp add: l2_def mzv_layer_facts l1_ch z_def)
  have rel_facts: "r_key (zone_vlan_relation z p1) = ''zone''"
      "r_targetName (zone_vlan_relation z p1) = ''zoneA''"
    using p1 z_facts by (simp_all add: zone_relation_facts)
  \<comment> \<open>after the gateway extraction\<close>
  have s_in: "s \<in> set (folders_of (epg_children ?e3))"
    unfolding s_def using f2_in f2_key l2_in l2_key(2) p2_in hit(3) by (rule mdg_added)
  have f3_in: "f3 \<in> set (folders_of (epg_children ?e3))"
    unfolding f3_def using f2_in f2_key by (rule mdg_rewritten)
  have b_in3: "b \<in> set (folders_of (epg_children ?e3))"
    using b_in2 b_key by (intro mdg_kept) simp_all
  have z_in3: "z \<in> set (folders_of (epg_children ?e3))"
    using z_in2 z_facts(1) by (intro mdg_kept) simp_all
  have f3_key: "f_key f3 = ''Interface''" by (simp add: f3_def mdg_folder_facts f2_key)
  have l3_in: "l3 \<in> set (subfolders_of (f_children f3))"
    using l2_in l2_key(2) by (force simp: f3_def l3_def mdg_folder_facts)
  have l3_key: "f_key l3 = ''Layer3Interface''" by (simp add: l3_def mdg_layer_facts l2_key)
  have rel3: "zone_vlan_relation z p1 \<in> set (relations_of (f_children l3))"
    using rel by (simp add: l3_def mdg_layer_facts)
  have s_facts: "f_key s = ''StaticRoute''" "f_name s = ''default_gateway''"
      "has_param ''nexthop'' ''10.0.0.1'' s" "has_param ''destination'' ''0.0.0.0/0'' s"
    using p2 by (simp_all add: s_def static_route_facts has_param_def)
  have b_name: "f_name b = f_name f @ premigration" by (simp add: b_def make_backup_name)
  have iface: "f_key f3 = ''Interface''
      \<and> list_ex (\<lambda>l. f_key l = ''Layer3Interface''
            \<and> list_ex (\<lambda>r. r_key r = ''zone'' \<and> r_targetName r = ''zoneA'')
                (relations_of (f_children l))) (subfolders_of (f_children f3))"
    using f3_key l3_in l3_key rel3 rel_facts unfolding list_ex_iff by blast
  show ?thesis
    unfolding migrated_shape_def list_ex_iff
    using b_in3 b_name f3_in iface z_in3 z_facts s_in s_facts
    unfolding list_ex_iff by blast
qed

lemma forward_passes_eq:
  "forward_passes tenant app_name =
     map_app_epgs (\<lambda>e. fst (mdg_epg (fst (mzv_epg (fst (mifk_epg e)))))) tenant app_name"
  by (simp add: forward_passes_def migrate_default_gateway_def migrate_zones_and_vlans_def
      migrate_interface_folder_keys_def tree_pass_fst map_app_epgs_comp)

section \<open>Cluster loops: facts\<close>












section \<open>Sub-folder keys under the rename pass: facts\<close>

lemma epgs_of_mifk:
  "epgs_of (fst (migrate_interface_folder_keys tenant app_name)) app_name
     = map (\<lambda>e. fst (mifk_epg e)) (epgs_of tenant app_name)"
  by (simp add: migrate_interface_folder_keys_def tree_pass_fst epgs_of_map_app_epgs)

lemma mifk_epg_nth:
  assumes "k < length (epg_children e)" and "epg_children e ! k = EpgFolder folder"
    and "needs_key_migration folder"
  shows "epg_children (fst (mifk_epg e)) ! k = EpgFolder (migrate_folder folder)"
  using assms by (simp add: mifk_epg_children nth_append map_folders_def)

lemma take_15_is_remove_suffix:
  assumes "k = ''Layer3InterfaceConfig'' \<or> k = ''Layer2InterfaceConfig''"
  shows "take 15 k = remove_suffix k ''Config''"
    and "remove_suffix k ''Config''
           = (if k = ''Layer3InterfaceConfig'' then ''Layer3Interface'' else ''Layer2Interface'')"
  using assms by (auto simp: remove_suffix_def endswith_def)

section \<open>Claims\<close>

text \<open>
  C3. Running the interface-folder key rename pass a second time on the result
  of a first run changes nothing: the tree after the second run is the tree
  after the first run (so no second backup is created) and the second run
  returns False.
\<close>

theorem rename_idempotent:
  "migrate_interface_folder_keys (fst (migrate_interface_folder_keys tenant app_name)) app_name
     = (fst (migrate_interface_folder_keys tenant app_name), False)"
  unfolding migrate_interface_folder_keys_def by (rule tree_pass_twice) (rule mifk_epg_twice)

theorem rename_idempotent_witness:
  "snd (migrate_interface_folder_keys sample_tenant ''app1'')
   \<and> migrate_interface_folder_keys
        (fst (migrate_interface_folder_keys sample_tenant ''app1'')) ''app1''
       = (fst (migrate_interface_folder_keys sample_tenant ''app1''), False)"
proof -
  have "snd (migrate_interface_folder_keys sample_tenant ''app1'')"
    by code_simp
  then show ?thesis
    using rename_idempotent [of sample_tenant "''app1''"] by simp
qed

text \<open>
  C10. When the app-profile name matches no AppProfile child of the tenant,
  each of the six tree passes returns False and leaves the tenant tree as it
  was; none raises.
\<close>

theorem absent_app:
  assumes "app_name \<notin> set (app_profile_names (tn_children tenant))"
  shows "migrate_interface_folder_keys tenant app_name = (tenant, False)
       \<and> migrate_zones_and_vlans tenant app_name = (tenant, False)
       \<and> migrate_default_gateway tenant app_name = (tenant, False)
       \<and> cleanup_interface_folders tenant app_name = (tenant, False)
       \<and> delete_migrated_folders tenant app_name = (tenant, False)
       \<and> revert_interface_folders tenant app_name = (tenant, False)"
proof -
  have "get_child (tn_children tenant) app_name = None"
    using assms by (simp add: get_child_None_iff)
  then have "\<And>body. tree_pass body tenant app_name = (tenant, False)"
    by (simp add: tree_pass_def)
  then show ?thesis
    by (simp add: migrate_interface_folder_keys_def migrate_zones_and_vlans_def
        migrate_default_gateway_def cleanup_interface_folders_def delete_migrated_folders_def
        revert_interface_folders_def)
qed

theorem absent_app_witness:
  "''app2'' \<notin> set (app_profile_names (tn_children sample_tenant))
   \<and> migrate_interface_folder_keys sample_tenant ''app2'' = (sample_tenant, False)
   \<and> migrate_zones_and_vlans sample_tenant ''app2'' = (sample_tenant, False)
   \<and> migrate_default_gateway sample_tenant ''app2'' = (sample_tenant, False)
   \<and> cleanup_interface_folders sample_tenant ''app2'' = (sample_tenant, False)
   \<and> delete_migrated_folders sample_tenant ''app2'' = (sample_tenant, False)
   \<and> revert_interface_folders sample_tenant ''app2'' = (sample_tenant, False)"
proof -
  have h: "''app2'' \<notin> set (app_profile_names (tn_children sample_tenant))"
    by (simp add: sample_tenant_def)
  show ?thesis using h absent_app [OF h] by blast
qed

text \<open>
  C5. The interface-folder key rename pass turns a Folder it migrates (key
  \<^verbatim>\<open>InterfaceConfig\<close>, name without the suffix) into a Folder of key
  \<^verbatim>\<open>Interface\<close> at the same place of its EPG; for every direct child Folder
  of it whose key is \<^verbatim>\<open>Layer3InterfaceConfig\<close> or
  \<^verbatim>\<open>Layer2InterfaceConfig\<close>, the child at the same place after the pass is
  that child with its key cut to its first 15 characters, which is the key
  without its trailing \<^verbatim>\<open>Config\<close>: \<^verbatim>\<open>Layer3Interface\<close> or
  \<^verbatim>\<open>Layer2Interface\<close> respectively.
\<close>

theorem subfolder_key_rewrite:
  assumes "j < length (epgs_of tenant app_name)"
    and "k < length (epg_children (epgs_of tenant app_name ! j))"
    and "epg_children (epgs_of tenant app_name ! j) ! k = EpgFolder folder"
    and "needs_key_migration folder"
    and "i < length (f_children folder)"
    and "f_children folder ! i = ChildFolder subfolder"
    and "f_key subfolder = ''Layer3InterfaceConfig'' \<or> f_key subfolder = ''Layer2InterfaceConfig''"
  shows "\<exists>folder'.
           epg_children
             (epgs_of (fst (migrate_interface_folder_keys tenant app_name)) app_name ! j) ! k
             = EpgFolder folder'
         \<and> f_key folder' = ''Interface''
         \<and> f_children folder' ! i
             = ChildFolder (set_key subfolder (remove_suffix (f_key subfolder) ''Config''))
         \<and> remove_suffix (f_key subfolder) ''Config''
             = (if f_key subfolder = ''Layer3InterfaceConfig''
                then ''Layer3Interface'' else ''Layer2Interface'')"
proof -
  let ?e = "epgs_of tenant app_name ! j"
  have "epgs_of (fst (migrate_interface_folder_keys tenant app_name)) app_name ! j
          = fst (mifk_epg ?e)"
    using assms(1) by (simp add: epgs_of_mifk)
  then have at: "epg_children
        (epgs_of (fst (migrate_interface_folder_keys tenant app_name)) app_name ! j) ! k
          = EpgFolder (migrate_folder folder)"
    using mifk_epg_nth[OF assms(2,3,4)] by simp
  have "migrate_subfolder (ChildFolder subfolder)
          = ChildFolder (set_key subfolder (take 15 (f_key subfolder)))"
    using assms(7) by (auto simp: migrate_subfolder_def)
  then have ch: "f_children (migrate_folder folder) ! i
          = ChildFolder (set_key subfolder (remove_suffix (f_key subfolder) ''Config''))"
    using assms(5,6) take_15_is_remove_suffix(1)[OF assms(7)]
    by (simp add: migrate_folder_children)
  show ?thesis
    using at ch take_15_is_remove_suffix(2)[OF assms(7)] migrate_folder_key[of folder]
    by blast
qed

theorem subfolder_key_rewrite_witness:
  "\<exists>folder'.
     epg_children
       (epgs_of (fst (migrate_interface_folder_keys sample_tenant ''app1'')) ''app1'' ! 0) ! 0
       = EpgFolder folder'
     \<and> f_key folder' = ''Interface''
     \<and> f_children folder' ! 0 = ChildFolder (set_key sample_layer ''Layer3Interface'')"
proof -
  have 1: "0 < length (epgs_of sample_tenant ''app1'')" by code_simp
  have 2: "0 < length (epg_children (epgs_of sample_tenant ''app1'' ! 0))" by code_simp
  have 3: "epg_children (epgs_of sample_tenant ''app1'' ! 0) ! 0 = EpgFolder sample_folder"
    by code_simp
  have 4: "needs_key_migration sample_folder" by code_simp
  have 5: "0 < length (f_children sample_folder)" by code_simp
  have 6: "f_children sample_folder ! 0 = ChildFolder sample_layer" by code_simp
  have 7: "f_key sample_layer = ''Layer3InterfaceConfig''
           \<or> f_key sample_layer = ''Layer2InterfaceConfig''" by code_simp
  have 8: "f_key sample_layer = ''Layer3InterfaceConfig''" by code_simp
  show ?thesis using subfolder_key_rewrite [OF 1 2 3 4 5 6 7] 8 by auto
qed

text \<open>
  C4. The claim is that neither cluster migration fails on a record it does not
  match. The forward migration ignores a device-manager record as the controller
  reports it (no \<^verbatim>\<open>vnsRsMDevAtt\<close> key); the revert migration subscripts
  \<^verbatim>\<open>cluster['vnsRsMDevAtt']\<close> without the membership test that the forward
  migration makes, and raises KeyError on the same record.
\<close>

theorem revert_clusters_unguarded:
  "migrate_clusters [devmgr_record] = Inr [] \<and> revert_clusters [devmgr_record] = Inl KeyError"
  by (simp add: migrate_clusters_def revert_clusters_def migrate_cluster_def revert_cluster_def
      guarded_target_is_def target_is_def attribute_def subscript_def has_key_def devmgr_record_def)



text \<open>
  C8. The claim is that argument parsing rejects every invocation whose action
  flags form an invalid combination. \<^verbatim>\<open>parse_args\<close> returns before it checks
  the flags when \<^verbatim>\<open>--app\<close> is missing, with the comment that the invocation
  will fail and exit after printing tenants or apps. With \<^verbatim>\<open>--tenant T1
  --revert\<close> and no \<^verbatim>\<open>--app\<close> nothing is printed and nothing exits:
  \<^verbatim>\<open>main\<close> runs to its end. The same flags with \<^verbatim>\<open>--app\<close> are rejected
  with status 1.
\<close>

theorem revert_without_app_not_rejected:
  "invalid_combination revert_only_args
   \<and> parse_args revert_only_args = Return revert_only_args
   \<and> main sample_env revert_only_args = ([Login, GetTenants, GetApps], Finished)
   \<and> parse_args (revert_only_args\<lparr>a_app := Some ''app1''\<rparr>) = Exit 1"
  by (simp add: invalid_combination_def parse_args_def revert_only_args_def falsy_def
      main_def sample_env_def arg_str_def run_passes_def revert_steps_def final_push_def)

text \<open>
  C7. On a tenant tree in which no EPG has a Folder with key
  \<^verbatim>\<open>InterfaceConfig\<close> and a name ending in \<^verbatim>\<open>_premigration\<close>, the cleanup
  pass returns the tree as it was and False; and an invocation with
  \<^verbatim>\<open>--cleanup\<close> that fetched this tree pushes nothing.
\<close>

theorem cleanup_without_backups:
  assumes "backup_folders tenant = []" "a_cleanup args" "deep env = tenant # others"
  shows "cleanup_interface_folders tenant app_name = (tenant, False)
       \<and> pushes (fst (main env args)) = []"
  using cleanup_no_backups[OF assms(1)] cleanup_invocation_no_push[OF assms] by simp

theorem cleanup_without_backups_witness:
  "cleanup_interface_folders sample_tenant ''app1'' = (sample_tenant, False)
   \<and> main sample_env cleanup_args = ([Login, GetTenants, GetApps, GetDeep], Finished)"
proof -
  have 1: "backup_folders sample_tenant = []"
    by (simp add: backup_folders_def sample_tenant_def sample_epg_def sample_folder_def
        is_backup_def endswith_def premigration_def)
  have 2: "a_cleanup cleanup_args" by (simp add: cleanup_args_def)
  have 3: "deep sample_env = sample_tenant # []" by (simp add: sample_env_def)
  have c: "cleanup_interface_folders sample_tenant ''app1'' = (sample_tenant, False)"
    using cleanup_without_backups [OF 1 2 3] by simp
  have "main sample_env cleanup_args = ([Login, GetTenants, GetApps, GetDeep], Finished)"
    by (simp add: main_def parse_args_def cleanup_args_def falsy_def sample_env_def arg_str_def
        run_passes_def revert_steps_def final_push_def c)
  then show ?thesis using c by simp
qed

text \<open>
  C9. No forward pass mutates a backup Folder: a Folder under an EPG whose key is
  \<^verbatim>\<open>InterfaceConfig\<close> and whose name ends in \<^verbatim>\<open>_premigration\<close> is, after any
  sequence of the three forward passes, at the same place of the tree with the
  same name, key, fields and children.
\<close>

theorem backups_untouched:
  assumes "folder_at tenant i j k = Some b" and "is_backup b"
  shows "folder_at (run_sequence ps tenant app_name) i j k = Some b"
  using assms
proof (induction ps arbitrary: tenant)
  case Nil
  then show ?case by simp
next
  case (Cons p ps)
  from Cons.prems have "folder_at (run_forward p tenant app_name) i j k = Some b"
    by (simp add: run_forward_keeps)
  then show ?case using Cons.IH Cons.prems(2) by simp
qed

theorem backups_untouched_witness:
  "folder_at
     (run_sequence [ZoneVlan, DefaultGateway, KeyRename, ZoneVlan]
        (fst (migrate_interface_folder_keys sample_tenant ''app1'')) ''app1'') 0 0 1
   = Some (make_backup sample_folder)"
proof -
  have 1: "folder_at (fst (migrate_interface_folder_keys sample_tenant ''app1'')) 0 0 1
             = Some (make_backup sample_folder)"
    by code_simp
  have 2: "is_backup (make_backup sample_folder)"
    by code_simp
  show ?thesis by (rule backups_untouched [OF 1 2])
qed

text \<open>
  C1, as stated: every EPG with a Folder of key \<^verbatim>\<open>InterfaceConfig\<close> holding the
  \<^verbatim>\<open>Layer3InterfaceConfig\<close> sub-folder with the two Parameters is migrated. A
  Folder of that shape whose name already ends in \<^verbatim>\<open>_premigration\<close> is taken
  for a backup: the three passes leave the tree as it was, with no
  \<^verbatim>\<open>Interface\<close>, \<^verbatim>\<open>Zone\<close> or \<^verbatim>\<open>StaticRoute\<close> Folder in it.
\<close>

theorem backup_not_migrated_counterexample:
  "\<lparr>epg_name = ''epg1'', epg_children = [EpgFolder (make_backup sample_folder)]\<rparr>
     \<in> set (epgs_of backup_only_tenant ''app1'')
   \<and> premigration_shape (make_backup sample_folder)
   \<and> forward_passes backup_only_tenant ''app1'' = backup_only_tenant
   \<and> \<not> list_ex (\<lambda>e'. migrated_shape (f_name (make_backup sample_folder)) (epg_children e'))
          (epgs_of (forward_passes backup_only_tenant ''app1'') ''app1'')"
  by code_simp

text \<open>
  C1, amended. For an EPG of the app profile the passes run on, holding a Folder
  of key \<^verbatim>\<open>InterfaceConfig\<close> whose name does not end in \<^verbatim>\<open>_premigration\<close>
  and which holds a \<^verbatim>\<open>Layer3InterfaceConfig\<close> sub-folder with Parameters
  \<^verbatim>\<open>security_zone=zoneA\<close> and \<^verbatim>\<open>default_gateway=10.0.0.1\<close>: after the three
  forward passes the EPG (same name) contains a Folder named the original name
  plus \<^verbatim>\<open>_premigration\<close>, an \<^verbatim>\<open>Interface\<close> Folder with a
  \<^verbatim>\<open>Layer3Interface\<close> sub-folder holding a Relation of key \<^verbatim>\<open>zone\<close> and
  targetName \<^verbatim>\<open>zoneA\<close>, a \<^verbatim>\<open>Zone\<close> Folder named \<^verbatim>\<open>zoneA\<close> with a
  \<^verbatim>\<open>mode\<close> Parameter of value \<^verbatim>\<open>layer3\<close>, and a \<^verbatim>\<open>StaticRoute\<close> Folder
  named \<^verbatim>\<open>default_gateway\<close> with Parameters \<^verbatim>\<open>nexthop=10.0.0.1\<close> and
  \<^verbatim>\<open>destination=0.0.0.0/0\<close>.
\<close>

theorem forward_passes_shape:
  assumes "e \<in> set (epgs_of tenant app_name)"
    and "f \<in> set (folders_of (epg_children e))"
    and "premigration_shape f"
    and "\<not> endswith (f_name f) premigration"
  shows "list_ex (\<lambda>e'. epg_name e' = epg_name e \<and> migrated_shape (f_name f) (epg_children e'))
           (epgs_of (forward_passes tenant app_name) app_name)"
proof -
  let ?F = "\<lambda>e. fst (mdg_epg (fst (mzv_epg (fst (mifk_epg e)))))"
  have "?F e \<in> set (epgs_of (forward_passes tenant app_name) app_name)"
    using assms(1) by (simp add: forward_passes_eq epgs_of_map_app_epgs)
  moreover have "epg_name (?F e) = epg_name e" by (simp add: epg_name_passes)
  moreover have "migrated_shape (f_name f) (epg_children (?F e))"
    using assms(2-4) by (rule forward_epg_shape)
  ultimately show ?thesis unfolding list_ex_iff by blast
qed

theorem forward_passes_shape_witness:
  "list_ex (\<lambda>e'. epg_name e' = epg_name sample_epg
                  \<and> migrated_shape (f_name sample_folder) (epg_children e'))
     (epgs_of (forward_passes sample_tenant ''app1'') ''app1'')"
proof -
  have 1: "sample_epg \<in> set (epgs_of sample_tenant ''app1'')" by code_simp
  have 2: "sample_folder \<in> set (folders_of (epg_children sample_epg))" by code_simp
  have 3: "premigration_shape sample_folder" by code_simp
  have 4: "\<not> endswith (f_name sample_folder) premigration" by code_simp
  show ?thesis by (rule forward_passes_shape [OF 1 2 3 4])
qed

text \<open>
  C2, as stated: for every tenant tree, forward passes followed by the revert
  pass give back the tree, soft-deleted copies apart. A live Folder of key
  \<^verbatim>\<open>Zone\<close> that the tree had before the migration is unlinked by the revert
  pass and is not in the result.
\<close>

theorem round_trip_loses_zone_counterexample:
  "revert_pass (forward_passes zone_tenant ''app1'') ''app1''
     = \<lparr>tn_name = ''T1'',
        tn_children = [TenantApp \<lparr>ap_name = ''app1'',
          ap_children = [AppEPG \<lparr>epg_name = ''epg1'', epg_children = []\<rparr>]\<rparr>]\<rparr>
   \<and> without_deleted_folders (revert_pass (forward_passes zone_tenant ''app1'') ''app1'') ''app1''
       \<noteq> zone_tenant"
  by code_simp

text \<open>
  C2, amended. For a tenant tree that has, under the EPGs of the app profile, no
  Folder of key \<^verbatim>\<open>Interface\<close>, \<^verbatim>\<open>Zone\<close>, \<^verbatim>\<open>Vlan\<close> or \<^verbatim>\<open>StaticRoute\<close>
  and no Folder whose name ends in \<^verbatim>\<open>_premigration\<close>, the revert pass applied
  to the output of the three forward passes yields the pre-migration tree with,
  under each EPG of the app profile, the \<^verbatim>\<open>InterfaceConfig\<close> Folders (each
  exactly as it was before the migration) moved behind the EPG's other children
  and followed by one soft-delete-marked copy of each backup Folder.
\<close>

theorem revert_round_trip:
  assumes "legacy_tree tenant app_name"
  shows "revert_pass (forward_passes tenant app_name) app_name
           = map_app_epgs round_trip_epg tenant app_name"
proof -
  have "revert_pass (forward_passes tenant app_name) app_name
          = map_app_epgs
              (\<lambda>e. fst (revert_epg (fst (delete_epg (fst (mdg_epg (fst (mzv_epg
                 (fst (mifk_epg e))))))))))
              tenant app_name"
    by (simp add: revert_pass_def forward_passes_def revert_interface_folders_def
        delete_migrated_folders_def migrate_default_gateway_def migrate_zones_and_vlans_def
        migrate_interface_folder_keys_def tree_pass_fst map_app_epgs_comp)
  also have "\<dots> = map_app_epgs round_trip_epg tenant app_name"
    using assms
    by (intro map_app_epgs_cong round_trip_epg_eq) (simp add: legacy_tree_def list_all_iff)
  finally show ?thesis .
qed

theorem revert_round_trip_witness:
  "revert_pass (forward_passes mixed_tenant ''app1'') ''app1''
     = \<lparr>tn_name = ''T1'',
        tn_children = [TenantApp \<lparr>ap_name = ''app1'',
          ap_children = [AppEPG \<lparr>epg_name = ''epg1'',
            epg_children = [EpgFolder dns_folder, EpgFolder sample_folder,
              EpgFolder (folder_mark_as_deleted (make_backup sample_folder))]\<rparr>]\<rparr>]\<rparr>"
proof -
  have 1: "legacy_tree mixed_tenant ''app1''" by code_simp
  have "map_app_epgs round_trip_epg mixed_tenant ''app1''
     = \<lparr>tn_name = ''T1'',
        tn_children = [TenantApp \<lparr>ap_name = ''app1'',
          ap_children = [AppEPG \<lparr>epg_name = ''epg1'',
            epg_children = [EpgFolder dns_folder, EpgFolder sample_folder,
              EpgFolder (folder_mark_as_deleted (make_backup sample_folder))]\<rparr>]\<rparr>]\<rparr>"
    by code_simp
  then show ?thesis using revert_round_trip [OF 1] by simp
qed

end
